theory Spec2Isabelle
  imports Complex_Main "HOL-Library.Multiset"
begin

section \<open>Errors and Python list indexing\<close>

text \<open>
  The exceptions the code can raise: \<open>ValueError\<close> (numpy shape mismatch, pandas
  sampling a negative number of rows), \<open>IndexError\<close> (list index out of range) and
  \<open>KeyError\<close> (missing column). A computation that may raise returns
  \<open>error + 'a\<close>, with \<open>Inl\<close> the exception.
\<close>

datatype error = ValueError | IndexError | KeyError

definition bind_err :: "error + 'a \<Rightarrow> ('a \<Rightarrow> error + 'b) \<Rightarrow> error + 'b" where
  "bind_err r f = (case r of Inl e \<Rightarrow> Inl e | Inr x \<Rightarrow> f x)"

text \<open>A list comprehension whose elements may raise: the first exception wins.\<close>

fun sequence_err :: "(error + 'a) list \<Rightarrow> error + 'a list" where
  "sequence_err [] = Inr []"
| "sequence_err (r # rs) = bind_err r (\<lambda>x. bind_err (sequence_err rs) (\<lambda>xs. Inr (x # xs)))"

text \<open>
  Python list indexing: an index from \<open>-len\<close> to \<open>len - 1\<close> names a position, the
  negative ones counting from the end; any other index raises IndexError.
\<close>

definition py_index :: "nat \<Rightarrow> int \<Rightarrow> nat option" where
  "py_index n i =
     (if 0 \<le> i \<and> i < int n then Some (nat i)
      else if i < 0 \<and> - int n \<le> i then Some (nat (int n + i))
      else None)"

definition py_get :: "'a list \<Rightarrow> int \<Rightarrow> error + 'a" where
  "py_get xs i = (case py_index (length xs) i of None \<Rightarrow> Inl IndexError | Some j \<Rightarrow> Inr (xs ! j))"

definition py_set :: "'a list \<Rightarrow> int \<Rightarrow> 'a \<Rightarrow> error + 'a list" where
  "py_set xs i v =
     (case py_index (length xs) i of None \<Rightarrow> Inl IndexError | Some j \<Rightarrow> Inr (xs[j := v]))"

section \<open>numpy arrays\<close>

text \<open>
  A two-dimensional array is its shape and its rows. Entries are real numbers: the
  rounding of float64 arithmetic is not part of the model. Every operation builds its
  result cell by cell from the shape, as numpy does.
\<close>

datatype ndarray = NDArray (nrows: nat) (ncols: nat) (cells: "real list list")

definition cell :: "ndarray \<Rightarrow> nat \<Rightarrow> nat \<Rightarrow> real" where
  "cell A i j = cells A ! i ! j"

definition mk :: "nat \<Rightarrow> nat \<Rightarrow> (nat \<Rightarrow> nat \<Rightarrow> real) \<Rightarrow> ndarray" where
  "mk r c f = NDArray r c (map (\<lambda>i. map (f i) [0..<c]) [0..<r])"

definition shape :: "ndarray \<Rightarrow> nat \<times> nat" where
  "shape A = (nrows A, ncols A)"

definition zeros :: "nat \<times> nat \<Rightarrow> ndarray" where
  "zeros s = mk (fst s) (snd s) (\<lambda>i j. 0)"

definition reshape_column :: "real list \<Rightarrow> ndarray" where
  \<comment> \<open>\<open>a.reshape(a.shape[0], 1)\<close> for a one-dimensional \<open>a\<close>.\<close>
  "reshape_column a = mk (length a) 1 (\<lambda>i j. a ! i)"

definition transpose_nd :: "ndarray \<Rightarrow> ndarray" where
  "transpose_nd A = mk (ncols A) (nrows A) (\<lambda>i j. cell A j i)"

definition dot :: "ndarray \<Rightarrow> ndarray \<Rightarrow> error + ndarray" where
  \<comment> \<open>\<open>np.dot\<close> of two matrices; the inner dimensions must agree.\<close>
  "dot A B =
     (if ncols A = nrows B
      then Inr (mk (nrows A) (ncols B)
                  (\<lambda>i j. sum_list (map (\<lambda>k. cell A i k * cell B k j) [0..<ncols A])))
      else Inl ValueError)"

text \<open>
  Broadcasting of the elementwise operators: two extents are compatible when they are
  equal or one of them is 1; the extent 1 is stretched to the other one.
\<close>

definition bcompat :: "nat \<Rightarrow> nat \<Rightarrow> bool" where
  "bcompat m n = (m = n \<or> m = 1 \<or> n = 1)"

definition bdim :: "nat \<Rightarrow> nat \<Rightarrow> nat" where
  "bdim m n = (if m = 1 then n else m)"

definition bidx :: "nat \<Rightarrow> nat \<Rightarrow> nat" where
  "bidx d i = (if d = 1 then 0 else i)"

definition elementwise :: "(real \<Rightarrow> real \<Rightarrow> real) \<Rightarrow> ndarray \<Rightarrow> ndarray \<Rightarrow> error + ndarray" where
  "elementwise f A B =
     (if bcompat (nrows A) (nrows B) \<and> bcompat (ncols A) (ncols B)
      then Inr (mk (bdim (nrows A) (nrows B)) (bdim (ncols A) (ncols B))
                  (\<lambda>i j. f (cell A (bidx (nrows A) i) (bidx (ncols A) j))
                           (cell B (bidx (nrows B) i) (bidx (ncols B) j))))
      else Inl ValueError)"

definition add :: "ndarray \<Rightarrow> ndarray \<Rightarrow> error + ndarray" where
  "add = elementwise (+)"

definition sub :: "ndarray \<Rightarrow> ndarray \<Rightarrow> error + ndarray" where
  "sub = elementwise (-)"

definition mul :: "ndarray \<Rightarrow> ndarray \<Rightarrow> error + ndarray" where
  "mul = elementwise (*)"

definition smul :: "real \<Rightarrow> ndarray \<Rightarrow> ndarray" where
  \<comment> \<open>scalar \<open>*\<close> array\<close>
  "smul c A = mk (nrows A) (ncols A) (\<lambda>i j. c * cell A i j)"

text \<open>
  Division of an array by a count. For the count 0 numpy gives \<open>nan\<close> or \<open>inf\<close> in
  every cell, which the real numbers do not have; HOL's \<open>x / 0 = 0\<close> stands there, so
  what the model says of the cells means something only for a count above 0.
\<close>

definition sdiv :: "ndarray \<Rightarrow> nat \<Rightarrow> ndarray" where
  \<comment> \<open>array \<open>/\<close> integer count\<close>
  "sdiv A n = mk (nrows A) (ncols A) (\<lambda>i j. cell A i j / real n)"

section \<open>The network\<close>

record mlp =
  activation :: "ndarray \<Rightarrow> ndarray"
  loss_derv :: "ndarray \<Rightarrow> ndarray \<Rightarrow> ndarray"
  activation_derv :: "ndarray \<Rightarrow> ndarray"
  output_activ :: "ndarray \<Rightarrow> ndarray"
  output_derv :: "ndarray \<Rightarrow> ndarray"
  target_fit :: "real \<Rightarrow> ndarray"
  weight_init :: "int \<Rightarrow> int \<Rightarrow> error + ndarray"
  bias_init :: "int \<Rightarrow> error + ndarray"
  weights :: "ndarray list"
  biases :: "ndarray list"

text \<open>
  The functions handed to the constructor are parameters. The two initialisers are called
  with whatever the layer sizes are and may raise; the other functions are taken to
  return.
\<close>

definition init_weights :: "(int \<Rightarrow> int \<Rightarrow> error + ndarray) \<Rightarrow> int list \<Rightarrow> error + ndarray list" where
  "init_weights wi lsizes =
     sequence_err (map (\<lambda>(nout, nin). wi nout nin) (zip (tl lsizes) (butlast lsizes)))"

definition init_biases :: "(int \<Rightarrow> error + ndarray) \<Rightarrow> int list \<Rightarrow> error + ndarray list" where
  "init_biases bi lsizes = sequence_err (map bi (tl lsizes))"

definition MLP ::
  "int list \<Rightarrow> (ndarray \<Rightarrow> ndarray) \<Rightarrow> (ndarray \<Rightarrow> ndarray \<Rightarrow> ndarray) \<Rightarrow> (ndarray \<Rightarrow> ndarray) \<Rightarrow>
   (ndarray \<Rightarrow> ndarray) \<Rightarrow> (ndarray \<Rightarrow> ndarray) \<Rightarrow> (real \<Rightarrow> ndarray) \<Rightarrow>
   (int \<Rightarrow> int \<Rightarrow> error + ndarray) \<Rightarrow> (int \<Rightarrow> error + ndarray) \<Rightarrow> error + mlp" where
  "MLP layers_sizes activation_func loss_d activation_d output_func output_d t_fit w_init b_init =
     bind_err (init_weights w_init layers_sizes) (\<lambda>ws.
     bind_err (init_biases b_init layers_sizes) (\<lambda>bs.
     Inr \<lparr> activation = activation_func, loss_derv = loss_d, activation_derv = activation_d,
           output_activ = output_func, output_derv = output_d, target_fit = t_fit,
           weight_init = w_init, bias_init = b_init, weights = ws, biases = bs \<rparr>))"

subsection \<open>Forward pass\<close>

definition affine :: "ndarray \<Rightarrow> ndarray \<Rightarrow> ndarray \<Rightarrow> error + ndarray" where
  \<comment> \<open>\<open>np.dot(w, a) + b\<close>\<close>
  "affine w a b = bind_err (dot w a) (\<lambda>d. add d b)"

text \<open>
  The loop of \<open>feed_forward\<close> over \<open>zip(self.weights[:-1], self.biases[:-1])\<close>; the
  one of \<open>get_activations_and_zs\<close> below also appends to \<open>activs\<close> and \<open>zs\<close>.
\<close>

fun feed_forward_loop ::
  "(ndarray \<Rightarrow> ndarray) \<Rightarrow> (ndarray \<times> ndarray) list \<Rightarrow> ndarray \<Rightarrow> error + ndarray" where
  "feed_forward_loop act [] a = Inr a"
| "feed_forward_loop act ((w, b) # wbs) a =
     bind_err (affine w a b) (\<lambda>z. feed_forward_loop act wbs (act z))"

definition feed_forward :: "mlp \<Rightarrow> real list \<Rightarrow> error + ndarray" where
  "feed_forward m a =
     bind_err (feed_forward_loop (activation m)
                 (zip (butlast (weights m)) (butlast (biases m))) (reshape_column a)) (\<lambda>a'.
     bind_err (py_get (weights m) (- 1)) (\<lambda>w.
     bind_err (dot w a') (\<lambda>d.
     bind_err (py_get (biases m) (- 1)) (\<lambda>b.
     bind_err (add d b) (\<lambda>z.
     Inr (output_activ m z))))))"

fun trace_loop ::
  "(ndarray \<Rightarrow> ndarray) \<Rightarrow> (ndarray \<times> ndarray) list \<Rightarrow> ndarray \<Rightarrow> ndarray list \<Rightarrow> ndarray list \<Rightarrow>
   error + (ndarray \<times> ndarray list \<times> ndarray list)" where
  "trace_loop act [] a activs zs = Inr (a, activs, zs)"
| "trace_loop act ((w, b) # wbs) a activs zs =
     bind_err (affine w a b) (\<lambda>z.
     trace_loop act wbs (act z) (activs @ [act z]) (zs @ [z]))"

definition get_activations_and_zs :: "mlp \<Rightarrow> real list \<Rightarrow> error + (ndarray list \<times> ndarray list)" where
  "get_activations_and_zs m a =
     bind_err (trace_loop (activation m) (zip (butlast (weights m)) (butlast (biases m)))
                 (reshape_column a) [reshape_column a] []) (\<lambda>(a', activs, zs).
     bind_err (py_get (weights m) (- 1)) (\<lambda>w.
     bind_err (dot w a') (\<lambda>d.
     bind_err (py_get (biases m) (- 1)) (\<lambda>b.
     bind_err (add d b) (\<lambda>z.
     Inr (activs @ [output_activ m z], zs @ [z]))))))"

subsection \<open>Backward pass\<close>

text \<open>
  The loop of \<open>backward\<close> for \<open>i\<close> from \<open>len(self.weights) - 2\<close> down to 0: the
  fourth argument is the number of rounds left, \<open>i + 1\<close>.
\<close>

fun backward_loop ::
  "mlp \<Rightarrow> ndarray list \<Rightarrow> ndarray list \<Rightarrow> nat \<Rightarrow> ndarray \<Rightarrow> ndarray list \<Rightarrow> ndarray list \<Rightarrow>
   error + (ndarray list \<times> ndarray list)" where
  "backward_loop m activs zs 0 delta weight_dervs bias_dervs = Inr (weight_dervs, bias_dervs)"
| "backward_loop m activs zs (Suc i) delta weight_dervs bias_dervs =
     bind_err (py_get (weights m) (int i + 1)) (\<lambda>w.
     bind_err (dot (transpose_nd w) delta) (\<lambda>d.
     bind_err (py_get zs (int i)) (\<lambda>z.
     bind_err (mul d (activation_derv m z)) (\<lambda>delta'.
     bind_err (py_set bias_dervs (int i) delta') (\<lambda>bias_dervs'.
     bind_err (py_get activs (int i)) (\<lambda>a.
     bind_err (dot delta' (transpose_nd a)) (\<lambda>wd.
     bind_err (py_set weight_dervs (int i) wd) (\<lambda>weight_dervs'.
     backward_loop m activs zs i delta' weight_dervs' bias_dervs'))))))))"

definition backward :: "mlp \<Rightarrow> real list \<Rightarrow> ndarray \<Rightarrow> error + (ndarray list \<times> ndarray list)" where
  "backward m a targets =
     (let weight_dervs = map (\<lambda>w. zeros (shape w)) (weights m);
          bias_dervs = map (\<lambda>b. zeros (shape b)) (biases m)
      in bind_err (get_activations_and_zs m a) (\<lambda>(activs, zs).
         bind_err (py_get activs (- 1)) (\<lambda>a_out.
         bind_err (py_get zs (- 1)) (\<lambda>z_out.
         bind_err (mul (loss_derv m a_out targets) (output_derv m z_out)) (\<lambda>delta.
         bind_err (py_set bias_dervs (- 1) delta) (\<lambda>bias_dervs'.
         bind_err (py_get activs (- 2)) (\<lambda>a_prev.
         bind_err (dot delta (transpose_nd a_prev)) (\<lambda>wd.
         bind_err (py_set weight_dervs (- 1) wd) (\<lambda>weight_dervs'.
         backward_loop m activs zs (length (weights m) - 1) delta
           weight_dervs' bias_dervs')))))))))"

section \<open>pandas data frames\<close>

text \<open>
  A data frame is its column names and its rows, each row an index label with one value
  per column. Index labels need not be distinct. Sampling is random in pandas: the model
  takes the random source as a parameter, a function from a generator state, the number
  of rows asked for and the number of rows present to the positions drawn and the next
  generator state.
\<close>

record dataframe =
  columns :: "string list"
  rows :: "(int \<times> real list) list"

type_synonym 'g sampler = "'g \<Rightarrow> nat \<Rightarrow> nat \<Rightarrow> nat list \<times> 'g"

definition df_empty :: "dataframe \<Rightarrow> bool" where
  \<comment> \<open>\<open>df.empty\<close>: some axis has length 0\<close>
  "df_empty df = (rows df = [] \<or> columns df = [])"

definition df_len :: "dataframe \<Rightarrow> nat" where
  "df_len df = length (rows df)"

definition df_index :: "dataframe \<Rightarrow> int list" where
  "df_index df = map fst (rows df)"

definition df_sample :: "'g sampler \<Rightarrow> 'g \<Rightarrow> int \<Rightarrow> dataframe \<Rightarrow> error + (dataframe \<times> 'g)" where
  \<comment> \<open>\<open>df.sample(n=n)\<close>: without replacement; a negative or too large \<open>n\<close> raises\<close>
  "df_sample smp g n df =
     (if n < 0 then Inl ValueError
      else if int (df_len df) < n then Inl ValueError
      else (case smp g (nat n) (df_len df) of
              (ps, g') \<Rightarrow> Inr (df\<lparr>rows := map (\<lambda>p. rows df ! p) ps\<rparr>, g')))"

definition df_drop :: "dataframe \<Rightarrow> int list \<Rightarrow> error + dataframe" where
  \<comment> \<open>\<open>df.drop(labels)\<close>: removes every row carrying one of the labels\<close>
  "df_drop df labels =
     (if set labels \<subseteq> set (df_index df)
      then Inr (df\<lparr>rows := filter (\<lambda>r. fst r \<notin> set labels) (rows df)\<rparr>)
      else Inl KeyError)"

definition df_column :: "dataframe \<Rightarrow> string \<Rightarrow> error + real list" where
  \<comment> \<open>\<open>df[name].to_numpy()\<close>\<close>
  "df_column df name =
     (if name \<in> set (columns df)
      then Inr (map (\<lambda>r. snd r ! length (takeWhile (\<lambda>c. c \<noteq> name) (columns df))) (rows df))
      else Inl KeyError)"

definition df_drop_column :: "dataframe \<Rightarrow> string \<Rightarrow> error + real list list" where
  \<comment> \<open>\<open>df.drop(columns=[name]).to_numpy()\<close>, as the list of its rows\<close>
  "df_drop_column df name =
     (if name \<in> set (columns df)
      then Inr (map (\<lambda>r. map snd (filter (\<lambda>cv. fst cv \<noteq> name) (zip (columns df) (snd r))))
                  (rows df))
      else Inl KeyError)"

section \<open>Training\<close>

text \<open>
  The \<open>while not t_data.empty\<close> loop of \<open>initialize_mini_batches\<close>, with the
  batches so far as an argument. Nothing bounds the number of its rounds, so a run that
  never leaves the loop is \<open>None\<close>.
\<close>

partial_function (option) mini_batches_loop ::
  "'g sampler \<Rightarrow> int \<Rightarrow> dataframe \<Rightarrow> 'g \<Rightarrow> dataframe list \<Rightarrow> (error + dataframe list \<times> 'g) option" where
  "mini_batches_loop smp mini_batch_size t_data g mini_batches =
     (if df_empty t_data then Some (Inr (mini_batches, g))
      else (case df_sample smp g (min mini_batch_size (int (df_len t_data))) t_data of
              Inl e \<Rightarrow> Some (Inl e)
            | Inr (mini_batch, g') \<Rightarrow>
                (case df_drop t_data (df_index mini_batch) of
                   Inl e \<Rightarrow> Some (Inl e)
                 | Inr t_data' \<Rightarrow>
                     mini_batches_loop smp mini_batch_size t_data' g'
                       (mini_batches @ [mini_batch]))))"

declare mini_batches_loop.simps [code]

definition initialize_mini_batches ::
  "'g sampler \<Rightarrow> 'g \<Rightarrow> dataframe \<Rightarrow> int \<Rightarrow> (error + dataframe list \<times> 'g) option" where
  "initialize_mini_batches smp g t_data mini_batch_size =
     mini_batches_loop smp mini_batch_size t_data g []"

definition add_all :: "ndarray list \<Rightarrow> ndarray list \<Rightarrow> error + ndarray list" where
  \<comment> \<open>\<open>[g + d for g, d in zip(gradient, dervs)]\<close>\<close>
  "add_all gradient dervs = sequence_err (map (\<lambda>(g, d). add g d) (zip gradient dervs))"

text \<open>
  The loop of \<open>process_batch\<close> over the examples of the batch (\<open>inputs[i]\<close> with
  \<open>classes[i]\<close>), carrying the two gradient accumulators.
\<close>

fun accumulate ::
  "mlp \<Rightarrow> (real list \<times> ndarray) list \<Rightarrow> ndarray list \<Rightarrow> ndarray list \<Rightarrow>
   error + (ndarray list \<times> ndarray list)" where
  "accumulate m [] weight_gradient bias_gradient = Inr (weight_gradient, bias_gradient)"
| "accumulate m ((inp, cls) # examples) weight_gradient bias_gradient =
     bind_err (backward m inp cls) (\<lambda>(weights_dervs, biases_dervs).
     bind_err (add_all weight_gradient weights_dervs) (\<lambda>weight_gradient'.
     bind_err (add_all bias_gradient biases_dervs) (\<lambda>bias_gradient'.
     accumulate m examples weight_gradient' bias_gradient')))"

definition descend :: "real \<Rightarrow> nat \<Rightarrow> ndarray list \<Rightarrow> ndarray list \<Rightarrow> error + ndarray list" where
  \<comment> \<open>\<open>[p - learning_rate * grad / n for p, grad in zip(params, gradient)]\<close>\<close>
  "descend learning_rate n params gradient =
     sequence_err (map (\<lambda>(p, grad). sub p (sdiv (smul learning_rate grad) n)) (zip params gradient))"

text \<open>
  \<open>process_batch\<close> assigns \<open>self.weights\<close> and then \<open>self.biases\<close>, so it returns the
  network as it is when the call ends, with the exception if one was raised. For a batch
  without rows numpy divides by zero and fills the parameters with NaN, which the real
  numbers do not have: there the model's values mean nothing.
\<close>

definition process_batch :: "mlp \<Rightarrow> dataframe \<Rightarrow> string \<Rightarrow> real \<Rightarrow> mlp \<times> error option" where
  "process_batch m batch class_column learning_rate =
     (let weight_gradient = map (\<lambda>w. zeros (shape w)) (weights m);
          bias_gradient = map (\<lambda>b. zeros (shape b)) (biases m)
      in case df_column batch class_column of
           Inl e \<Rightarrow> (m, Some e)
         | Inr raw_classes \<Rightarrow>
        (let classes = map (target_fit m) raw_classes
         in case df_drop_column batch class_column of
              Inl e \<Rightarrow> (m, Some e)
            | Inr inputs \<Rightarrow>
           (case accumulate m (zip inputs classes) weight_gradient bias_gradient of
              Inl e \<Rightarrow> (m, Some e)
            | Inr (weight_gradient', bias_gradient') \<Rightarrow>
               (case descend learning_rate (length inputs) (weights m) weight_gradient' of
                  Inl e \<Rightarrow> (m, Some e)
                | Inr ws \<Rightarrow>
                   (case descend learning_rate (length inputs) (biases m) bias_gradient' of
                      Inl e \<Rightarrow> (m\<lparr>weights := ws\<rparr>, Some e)
                    | Inr bs \<Rightarrow> (m\<lparr>weights := ws, biases := bs\<rparr>, None))))))"

text \<open>The loop \<open>for batch in mini_batches\<close> of \<open>train\<close>; an exception ends it.\<close>

fun process_batches :: "mlp \<Rightarrow> dataframe list \<Rightarrow> string \<Rightarrow> real \<Rightarrow> mlp \<times> error option" where
  "process_batches m [] class_column learning_rate = (m, None)"
| "process_batches m (batch # batches) class_column learning_rate =
     (case process_batch m batch class_column learning_rate of
        (m', Some e) \<Rightarrow> (m', Some e)
      | (m', None) \<Rightarrow> process_batches m' batches class_column learning_rate)"

text \<open>
  The state of a training run: the network, the generator state and the lines printed,
  where \<open>k\<close> stands for the line \<open>Epoch k completed.\<close> A run that never returns is
  \<open>None\<close>.
\<close>

type_synonym 'g train_state = "mlp \<times> 'g \<times> nat list"

text \<open>The loop \<open>for epoch in range(epochs)\<close>, over the list of the values of \<open>epoch\<close>.\<close>

fun train_loop ::
  "'g sampler \<Rightarrow> dataframe \<Rightarrow> int \<Rightarrow> real \<Rightarrow> string \<Rightarrow> nat list \<Rightarrow> 'g train_state \<Rightarrow>
   ('g train_state \<times> error option) option" where
  "train_loop smp training_data mini_batch_size learning_rate class_column [] st = Some (st, None)"
| "train_loop smp training_data mini_batch_size learning_rate class_column (epoch # epochs) (m, g, out) =
     (case initialize_mini_batches smp g training_data mini_batch_size of
        None \<Rightarrow> None
      | Some (Inl e) \<Rightarrow> Some ((m, g, out), Some e)
      | Some (Inr (mini_batches, g')) \<Rightarrow>
          (case process_batches m mini_batches class_column learning_rate of
             (m', Some e) \<Rightarrow> Some ((m', g', out), Some e)
           | (m', None) \<Rightarrow>
               train_loop smp training_data mini_batch_size learning_rate class_column epochs
                 (m', g', out @ [epoch + 1])))"

definition train ::
  "'g sampler \<Rightarrow> 'g \<Rightarrow> mlp \<Rightarrow> dataframe \<Rightarrow> int \<Rightarrow> int \<Rightarrow> real \<Rightarrow> string \<Rightarrow>
   ('g train_state \<times> error option) option" where
  "train smp g m training_data epochs mini_batch_size learning_rate class_column =
     train_loop smp training_data mini_batch_size learning_rate class_column
       [0..<nat epochs] (m, g, [])"

text \<open>The loop of \<open>predict\<close> over the rows of the frame, in order.\<close>

fun predict_loop :: "mlp \<Rightarrow> real list list \<Rightarrow> ndarray list \<Rightarrow> error + ndarray list" where
  "predict_loop m [] predictions = Inr predictions"
| "predict_loop m (row # X) predictions =
     bind_err (feed_forward m row) (\<lambda>prediction. predict_loop m X (predictions @ [prediction]))"

definition predict :: "mlp \<Rightarrow> dataframe \<Rightarrow> error + ndarray list" where
  "predict m X = predict_loop m (map snd (rows X)) []"

section \<open>Example functions, networks and data\<close>

text \<open>
  Concrete functions of the kind a caller passes to the constructor: ReLU between the
  layers, a linear output, the derivative of the squared error, a one-cell target, and
  initialisers that refuse a negative size as numpy does.
\<close>

definition relu :: "ndarray \<Rightarrow> ndarray" where
  "relu z = mk (nrows z) (ncols z) (\<lambda>i j. max 0 (cell z i j))"

definition relu_derv :: "ndarray \<Rightarrow> ndarray" where
  "relu_derv z = mk (nrows z) (ncols z) (\<lambda>i j. if 0 < cell z i j then 1 else 0)"

definition linear :: "ndarray \<Rightarrow> ndarray" where
  "linear z = z"

definition linear_derv :: "ndarray \<Rightarrow> ndarray" where
  "linear_derv z = mk (nrows z) (ncols z) (\<lambda>i j. 1)"

definition mse_derv :: "ndarray \<Rightarrow> ndarray \<Rightarrow> ndarray" where
  "mse_derv a t = mk (nrows a) (ncols a) (\<lambda>i j. cell a i j - cell t i j)"

definition scalar_target :: "real \<Rightarrow> ndarray" where
  "scalar_target c = mk 1 1 (\<lambda>i j. c)"

definition ones_weight_init :: "int \<Rightarrow> int \<Rightarrow> error + ndarray" where
  "ones_weight_init nout nin =
     (if nout < 0 \<or> nin < 0 then Inl ValueError else Inr (mk (nat nout) (nat nin) (\<lambda>i j. 1)))"

definition zeros_bias_init :: "int \<Rightarrow> error + ndarray" where
  "zeros_bias_init n = (if n < 0 then Inl ValueError else Inr (zeros (nat n, 1)))"

definition example_MLP :: "int list \<Rightarrow> error + mlp" where
  "example_MLP layers_sizes =
     MLP layers_sizes relu mse_derv relu_derv linear linear_derv scalar_target
       ones_weight_init zeros_bias_init"

text \<open>The network \<open>example_MLP [2, 2, 1]\<close>, written out.\<close>

definition example_net :: mlp where
  "example_net =
     \<lparr> activation = relu, loss_derv = mse_derv, activation_derv = relu_derv,
       output_activ = linear, output_derv = linear_derv, target_fit = scalar_target,
       weight_init = ones_weight_init, bias_init = zeros_bias_init,
       weights = [NDArray 2 2 [[1, 1], [1, 1]], NDArray 1 2 [[1, 1]]],
       biases = [NDArray 2 1 [[0], [0]], NDArray 1 1 [[0]]] \<rparr>"

definition example_data :: dataframe where
  "example_data =
     \<lparr> columns = [''x1'', ''x2'', ''target''],
       rows = [(0, [1, 2, 1]), (1, [0, 1, 3]), (2, [2, 0, 0])] \<rparr>"

text \<open>A sampler that always draws the first rows, keeping a count of its calls.\<close>

definition first_rows :: "nat sampler" where
  "first_rows g n len = ([0..<n], Suc g)"

text \<open>
  A frame whose first two rows carry the same index label, as \<open>pd.concat\<close> of two
  frames gives, and a frame with two rows and no column.
\<close>

definition duplicate_index_data :: dataframe where
  "duplicate_index_data =
     \<lparr> columns = [''x1'', ''target''], rows = [(0, [1, 1]), (0, [2, 0]), (1, [3, 1])] \<rparr>"

definition no_column_data :: dataframe where
  "no_column_data = \<lparr> columns = [], rows = [(0, []), (1, [])] \<rparr>"


text \<open>
  The derivative of the squared error as one writes it with numpy, \<open>a - t\<close>: the
  subtraction broadcasts, so the result has the shape of \<open>a\<close> only when \<open>t\<close> has that
  shape or is a single cell. Where the two shapes are not compatible numpy raises; a
  loss function of the model always returns, and returns \<open>a\<close> there (a case that is
  not reached below).
\<close>

definition difference_loss :: "ndarray \<Rightarrow> ndarray \<Rightarrow> ndarray" where
  "difference_loss a t = (case sub a t of Inr d \<Rightarrow> d | Inl e \<Rightarrow> a)"

text \<open>The example network with this loss derivative.\<close>

definition difference_net :: mlp where
  "difference_net = example_net\<lparr>loss_derv := difference_loss\<rparr>"

text \<open>
  A target encoder for three classes, a column with a one at the place of the class,
  and a network of layer sizes \<open>[2, 1]\<close> that uses it: the target has three entries
  where the network has one output.
\<close>

definition one_hot3 :: "real \<Rightarrow> ndarray" where
  "one_hot3 c = mk 3 1 (\<lambda>i j. if real i = c then 1 else 0)"

definition mismatched_net :: mlp where
  "mismatched_net =
     \<lparr> activation = relu, loss_derv = difference_loss, activation_derv = relu_derv,
       output_activ = linear, output_derv = linear_derv, target_fit = one_hot3,
       weight_init = ones_weight_init, bias_init = zeros_bias_init,
       weights = [NDArray 1 2 [[1, 1]]], biases = [NDArray 1 1 [[0]]] \<rparr>"

section \<open>Notions the statements need\<close>

text \<open>
  What pandas guarantees of a sample of \<open>n\<close> rows out of \<open>len\<close>, without
  replacement: \<open>n\<close> positions below \<open>len\<close>, no position twice.
\<close>

definition valid_sampler :: "'g sampler \<Rightarrow> bool" where
  "valid_sampler smp =
     (\<forall>g n len. n \<le> len \<longrightarrow>
        length (fst (smp g n len)) = n \<and> distinct (fst (smp g n len)) \<and>
        (\<forall>p \<in> set (fst (smp g n len)). p < len))"

text \<open>The sizes of the batches of \<open>N\<close> rows cut \<open>B\<close> at a time: full ones, then the rest.\<close>

definition batch_sizes :: "nat \<Rightarrow> nat \<Rightarrow> nat list" where
  "batch_sizes N B = replicate (N div B) B @ (if N mod B = 0 then [] else [N mod B])"

text \<open>
  A network has the shapes of the layer sizes \<open>ls\<close> when it holds one weight and one
  bias per layer, the weight of layer \<open>i\<close> of shape \<open>ls[i+1] \<times> ls[i]\<close> and its bias a
  column of length \<open>ls[i+1]\<close>.
\<close>

definition wf_net :: "nat list \<Rightarrow> mlp \<Rightarrow> bool" where
  "wf_net ls m =
     (length (weights m) = length ls - 1 \<and> length (biases m) = length ls - 1 \<and>
      (\<forall>i. i + 1 < length ls \<longrightarrow>
         shape (weights m ! i) = (ls ! (i + 1), ls ! i) \<and>
         shape (biases m ! i) = (ls ! (i + 1), 1)))"

text \<open>An activation function or derivative works cell by cell: it keeps the shape.\<close>

definition shape_pres :: "(ndarray \<Rightarrow> ndarray) \<Rightarrow> bool" where
  "shape_pres f = (\<forall>A. shape (f A) = shape A)"

text \<open>The function applied after the affine map of layer \<open>i\<close>: the output one at the last layer.\<close>

definition layer_function :: "mlp \<Rightarrow> nat \<Rightarrow> ndarray \<Rightarrow> ndarray" where
  "layer_function m i = (if i + 1 = length (weights m) then output_activ m else activation m)"


text \<open>
  The same contract in two parts: the functions applied to arrays of the network work
  cell by cell; and for a target \<open>t\<close> the derivative of the loss, given an output column
  of length \<open>n\<close>, returns a column of length \<open>n\<close>. A loss derivative written
  \<open>a - t\<close> does so for a target that is a column of length \<open>n\<close> or of length 1, and
  does not for a longer target, which numpy broadcasts against.
\<close>

definition elementwise_functions :: "mlp \<Rightarrow> bool" where
  "elementwise_functions m =
     (shape_pres (activation m) \<and> shape_pres (activation_derv m) \<and>
      shape_pres (output_activ m) \<and> shape_pres (output_derv m))"

definition loss_fits :: "mlp \<Rightarrow> nat \<Rightarrow> ndarray \<Rightarrow> bool" where
  "loss_fits m n t = (\<forall>y. shape y = (n, 1) \<longrightarrow> shape (loss_derv m y t) = (n, 1))"

definition targets_fit :: "mlp \<Rightarrow> nat \<Rightarrow> bool" where
  "targets_fit m n = (\<forall>c. loss_fits m n (target_fit m c))"

text \<open>
  The gradient accumulated for one layer: the per-example gradients of that layer added
  one after the other, in the order of the examples, to the accumulator's first value.
\<close>

fun sum_gradients :: "ndarray \<Rightarrow> ndarray list \<Rightarrow> error + ndarray" where
  "sum_gradients acc [] = Inr acc"
| "sum_gradients acc (g # gs) = bind_err (add acc g) (\<lambda>acc'. sum_gradients acc' gs)"

text \<open>Gradients shaped like the weights and biases of a network of layer sizes \<open>ls\<close>.\<close>

definition gradient_shapes :: "nat list \<Rightarrow> ndarray list \<Rightarrow> ndarray list \<Rightarrow> bool" where
  "gradient_shapes ls wg bg =
     (length wg = length ls - 1 \<and> length bg = length ls - 1 \<and>
      (\<forall>i. i + 1 < length ls \<longrightarrow>
         shape (wg ! i) = (ls ! (i + 1), ls ! i) \<and> shape (bg ! i) = (ls ! (i + 1), 1)))"


section \<open>The methods as transformers of the object\<close>

text \<open>
  The functions above take the network as an argument and return a value, which says
  nothing about what a method does to \<open>self\<close>. Here each method is translated again,
  statement by statement, as a function from the object before the call to the outcome
  (the value returned, or the exception) and the object after the call. A read of an
  attribute is \<open>attribute\<close>; the two assignments of the class body outside
  \<open>__init__\<close>, \<open>self.weights = ...\<close> and \<open>self.biases = ...\<close>, are
  \<open>assign_weights\<close> and \<open>assign_biases\<close>; an operation of numpy or on a list that
  touches local values only is \<open>compute\<close>; a call of another method of \<open>self\<close> is
  that method's transformer. When a statement raises, the statements after it do not
  run and the object stays as the statements before it left it. numpy returns a fresh
  array from every operation the class uses (\<open>np.dot\<close>, \<open>+\<close>, \<open>-\<close>, \<open>*\<close>, \<open>/\<close>,
  \<open>np.zeros\<close>, \<open>reshape\<close>, \<open>transpose\<close> on arrays that are only read afterwards),
  and the lists assigned by index in \<open>backward\<close> are local lists of fresh arrays.
\<close>

type_synonym 'a on_self = "mlp \<Rightarrow> (error + 'a) \<times> mlp"

definition return_m :: "'a \<Rightarrow> 'a on_self" where
  "return_m x = (\<lambda>self. (Inr x, self))"

definition attribute :: "(mlp \<Rightarrow> 'a) \<Rightarrow> 'a on_self" where
  "attribute field = (\<lambda>self. (Inr (field self), self))"

definition compute :: "error + 'a \<Rightarrow> 'a on_self" where
  "compute r = (\<lambda>self. (r, self))"

definition assign_weights :: "ndarray list \<Rightarrow> unit on_self" where
  "assign_weights ws = (\<lambda>self. (Inr (), self\<lparr>weights := ws\<rparr>))"

definition assign_biases :: "ndarray list \<Rightarrow> unit on_self" where
  "assign_biases bs = (\<lambda>self. (Inr (), self\<lparr>biases := bs\<rparr>))"

definition bind_m :: "'a on_self \<Rightarrow> ('a \<Rightarrow> 'b on_self) \<Rightarrow> 'b on_self" where
  "bind_m p f = (\<lambda>self. case p self of
                          (Inl e, self') \<Rightarrow> (Inl e, self')
                        | (Inr x, self') \<Rightarrow> f x self')"

subsection \<open>\<open>feed_forward\<close>\<close>

fun feed_forward_steps :: "(ndarray \<times> ndarray) list \<Rightarrow> ndarray \<Rightarrow> ndarray on_self" where
  "feed_forward_steps [] a = return_m a"
| "feed_forward_steps ((w, b) # wbs) a =
     bind_m (compute (affine w a b)) (\<lambda>z.
     bind_m (attribute activation) (\<lambda>act.
     feed_forward_steps wbs (act z)))"

definition feed_forward_method :: "real list \<Rightarrow> ndarray on_self" where
  "feed_forward_method a =
     bind_m (attribute weights) (\<lambda>ws.
     bind_m (attribute biases) (\<lambda>bs.
     bind_m (feed_forward_steps (zip (butlast ws) (butlast bs)) (reshape_column a)) (\<lambda>a'.
     bind_m (attribute weights) (\<lambda>ws'.
     bind_m (compute (py_get ws' (- 1))) (\<lambda>w.
     bind_m (compute (dot w a')) (\<lambda>d.
     bind_m (attribute biases) (\<lambda>bs'.
     bind_m (compute (py_get bs' (- 1))) (\<lambda>b.
     bind_m (compute (add d b)) (\<lambda>z.
     bind_m (attribute output_activ) (\<lambda>out.
     return_m (out z)))))))))))"

subsection \<open>\<open>get_activations_and_zs\<close>\<close>

fun trace_steps ::
  "(ndarray \<times> ndarray) list \<Rightarrow> ndarray \<Rightarrow> ndarray list \<Rightarrow> ndarray list \<Rightarrow>
   (ndarray \<times> ndarray list \<times> ndarray list) on_self" where
  "trace_steps [] a activs zs = return_m (a, activs, zs)"
| "trace_steps ((w, b) # wbs) a activs zs =
     bind_m (compute (affine w a b)) (\<lambda>z.
     bind_m (attribute activation) (\<lambda>act.
     trace_steps wbs (act z) (activs @ [act z]) (zs @ [z])))"

definition get_activations_and_zs_method :: "real list \<Rightarrow> (ndarray list \<times> ndarray list) on_self" where
  "get_activations_and_zs_method a =
     bind_m (attribute weights) (\<lambda>ws.
     bind_m (attribute biases) (\<lambda>bs.
     bind_m (trace_steps (zip (butlast ws) (butlast bs)) (reshape_column a)
               [reshape_column a] []) (\<lambda>(a', activs, zs).
     bind_m (attribute weights) (\<lambda>ws'.
     bind_m (compute (py_get ws' (- 1))) (\<lambda>w.
     bind_m (compute (dot w a')) (\<lambda>d.
     bind_m (attribute biases) (\<lambda>bs'.
     bind_m (compute (py_get bs' (- 1))) (\<lambda>b.
     bind_m (compute (add d b)) (\<lambda>z.
     bind_m (attribute output_activ) (\<lambda>out.
     return_m (activs @ [out z], zs @ [z])))))))))))"

subsection \<open>\<open>backward\<close>\<close>

fun backward_steps ::
  "ndarray list \<Rightarrow> ndarray list \<Rightarrow> nat \<Rightarrow> ndarray \<Rightarrow> ndarray list \<Rightarrow> ndarray list \<Rightarrow>
   (ndarray list \<times> ndarray list) on_self" where
  "backward_steps activs zs 0 delta weight_dervs bias_dervs = return_m (weight_dervs, bias_dervs)"
| "backward_steps activs zs (Suc i) delta weight_dervs bias_dervs =
     bind_m (attribute weights) (\<lambda>ws.
     bind_m (compute (py_get ws (int i + 1))) (\<lambda>w.
     bind_m (compute (dot (transpose_nd w) delta)) (\<lambda>d.
     bind_m (attribute activation_derv) (\<lambda>act_d.
     bind_m (compute (py_get zs (int i))) (\<lambda>z.
     bind_m (compute (mul d (act_d z))) (\<lambda>delta'.
     bind_m (compute (py_set bias_dervs (int i) delta')) (\<lambda>bias_dervs'.
     bind_m (compute (py_get activs (int i))) (\<lambda>a.
     bind_m (compute (dot delta' (transpose_nd a))) (\<lambda>wd.
     bind_m (compute (py_set weight_dervs (int i) wd)) (\<lambda>weight_dervs'.
     backward_steps activs zs i delta' weight_dervs' bias_dervs'))))))))))"

definition backward_method ::
  "real list \<Rightarrow> ndarray \<Rightarrow> (ndarray list \<times> ndarray list) on_self" where
  "backward_method a targets =
     bind_m (attribute weights) (\<lambda>ws.
     bind_m (attribute biases) (\<lambda>bs.
     bind_m (get_activations_and_zs_method a) (\<lambda>(activs, zs).
     bind_m (attribute loss_derv) (\<lambda>loss_d.
     bind_m (compute (py_get activs (- 1))) (\<lambda>a_out.
     bind_m (attribute output_derv) (\<lambda>out_d.
     bind_m (compute (py_get zs (- 1))) (\<lambda>z_out.
     bind_m (compute (mul (loss_d a_out targets) (out_d z_out))) (\<lambda>delta.
     bind_m (compute (py_set (map (\<lambda>b. zeros (shape b)) bs) (- 1) delta)) (\<lambda>bias_dervs.
     bind_m (compute (py_get activs (- 2))) (\<lambda>a_prev.
     bind_m (compute (dot delta (transpose_nd a_prev))) (\<lambda>wd.
     bind_m (compute (py_set (map (\<lambda>w. zeros (shape w)) ws) (- 1) wd)) (\<lambda>weight_dervs.
     bind_m (attribute weights) (\<lambda>ws'.
     backward_steps activs zs (length ws' - 1) delta weight_dervs bias_dervs)))))))))))))"

subsection \<open>\<open>predict\<close>\<close>

fun predict_steps :: "real list list \<Rightarrow> ndarray list \<Rightarrow> ndarray list on_self" where
  "predict_steps [] predictions = return_m predictions"
| "predict_steps (row # X) predictions =
     bind_m (feed_forward_method row) (\<lambda>prediction.
     predict_steps X (predictions @ [prediction]))"

definition predict_method :: "dataframe \<Rightarrow> ndarray list on_self" where
  "predict_method X = predict_steps (map snd (rows X)) []"

subsection \<open>\<open>process_batch\<close>\<close>

fun accumulate_steps ::
  "(real list \<times> ndarray) list \<Rightarrow> ndarray list \<Rightarrow> ndarray list \<Rightarrow>
   (ndarray list \<times> ndarray list) on_self" where
  "accumulate_steps [] weight_gradient bias_gradient = return_m (weight_gradient, bias_gradient)"
| "accumulate_steps ((inp, cls) # examples) weight_gradient bias_gradient =
     bind_m (backward_method inp cls) (\<lambda>(weights_dervs, biases_dervs).
     bind_m (compute (add_all weight_gradient weights_dervs)) (\<lambda>weight_gradient'.
     bind_m (compute (add_all bias_gradient biases_dervs)) (\<lambda>bias_gradient'.
     accumulate_steps examples weight_gradient' bias_gradient')))"

definition process_batch_method :: "dataframe \<Rightarrow> string \<Rightarrow> real \<Rightarrow> unit on_self" where
  "process_batch_method batch class_column learning_rate =
     bind_m (attribute weights) (\<lambda>ws0.
     bind_m (attribute biases) (\<lambda>bs0.
     bind_m (compute (df_column batch class_column)) (\<lambda>raw_classes.
     bind_m (attribute target_fit) (\<lambda>fit.
     bind_m (compute (df_drop_column batch class_column)) (\<lambda>inputs.
     bind_m (accumulate_steps (zip inputs (map fit raw_classes))
               (map (\<lambda>w. zeros (shape w)) ws0) (map (\<lambda>b. zeros (shape b)) bs0))
            (\<lambda>(weight_gradient, bias_gradient).
     bind_m (attribute weights) (\<lambda>ws.
     bind_m (compute (descend learning_rate (length inputs) ws weight_gradient)) (\<lambda>ws'.
     bind_m (assign_weights ws') (\<lambda>_.
     bind_m (attribute biases) (\<lambda>bs.
     bind_m (compute (descend learning_rate (length inputs) bs bias_gradient)) (\<lambda>bs'.
     assign_biases bs')))))))))))"

text \<open>The loop \<open>for batch in mini_batches\<close> of \<open>train\<close>, the only calls of \<open>train\<close> on \<open>self\<close>
  besides \<open>initialize_mini_batches\<close>, whose body does not mention \<open>self\<close>.\<close>

fun process_batches_method :: "dataframe list \<Rightarrow> string \<Rightarrow> real \<Rightarrow> unit on_self" where
  "process_batches_method [] class_column learning_rate = return_m ()"
| "process_batches_method (batch # batches) class_column learning_rate =
     bind_m (process_batch_method batch class_column learning_rate) (\<lambda>_.
     process_batches_method batches class_column learning_rate)"


section \<open>float64 arithmetic of the update step\<close>

text \<open>
  The arrays of numpy hold float64 numbers, and every arithmetic operation on them
  returns the real result rounded to the nearest float64, ties to the even
  significand. For the relations between the values of two runs, which rounding can
  break, the update step is modelled once more with the rounding written out. A
  float64 has 53 significant bits: a number \<open>x\<close> with \<open>2^e \<le> |x| < 2^(e+1)\<close> is
  rounded to a multiple of \<open>2^(e-52)\<close>. The exponent is searched for by halving or
  doubling, at most 1100 times, which covers every exponent of a float64. Overflow to
  \<open>inf\<close> and the subnormal numbers below \<open>2^-1022\<close> are not modelled: the function
  is the rounding of numpy for the numbers that \<open>in_range\<close> admits.
\<close>

definition round_half_even :: "real \<Rightarrow> int" where
  "round_half_even x =
     (let f = \<lfloor>x\<rfloor> in
      if x - of_int f < 1 / 2 then f
      else if 1 / 2 < x - of_int f then f + 1
      else if even f then f else f + 1)"

fun binade :: "nat \<Rightarrow> real \<Rightarrow> int" where
  "binade 0 x = 0"
| "binade (Suc k) x =
     (if 2 \<le> x then binade k (x / 2) + 1
      else if x < 1 then binade k (2 * x) - 1
      else 0)"

definition f64 :: "real \<Rightarrow> real" where
  "f64 x =
     (if x = 0 then 0
      else (let ulp = 2 powi (binade 1100 \<bar>x\<bar> - 52)
            in of_int (round_half_even (x / ulp)) * ulp))"

definition in_range :: "real \<Rightarrow> bool" where
  "in_range x = (x = 0 \<or> (2 powi (- 1000) \<le> \<bar>x\<bar> \<and> \<bar>x\<bar> < 2 powi 1000))"

definition round_cells :: "ndarray \<Rightarrow> ndarray" where
  "round_cells A = mk (nrows A) (ncols A) (\<lambda>i j. f64 (cell A i j))"

text \<open>
  The term \<open>learning_rate * grad / len(inputs)\<close> of \<open>process_batch\<close>, a product and
  then a quotient, each rounded; and the list comprehension that subtracts it from
  each parameter, the difference rounded. The gradient is what the loop over the batch
  has accumulated: the learning rate is not used before this step.
\<close>

definition update_f64 :: "real \<Rightarrow> nat \<Rightarrow> ndarray \<Rightarrow> ndarray" where
  "update_f64 learning_rate n grad =
     round_cells (sdiv (round_cells (smul learning_rate grad)) n)"

definition descend_f64 :: "real \<Rightarrow> nat \<Rightarrow> ndarray list \<Rightarrow> ndarray list \<Rightarrow> error + ndarray list" where
  "descend_f64 learning_rate n params gradient =
     sequence_err (map (\<lambda>(p, grad).
        bind_err (sub p (update_f64 learning_rate n grad)) (\<lambda>d. Inr (round_cells d)))
        (zip params gradient))"


section \<open>Basic facts about exceptions and comprehensions\<close>

lemma bind_err_Inl [simp]: "bind_err (Inl e) f = Inl e"
  by (simp add: bind_err_def)

lemma bind_err_Inr [simp]: "bind_err (Inr x) f = f x"
  by (simp add: bind_err_def)

lemma bind_err_eq_Inr: "bind_err r f = Inr y \<longleftrightarrow> (\<exists>x. r = Inr x \<and> f x = Inr y)"
  by (cases r) simp_all

lemma bind_err_eq_Inl: "bind_err r f = Inl e \<longleftrightarrow> r = Inl e \<or> (\<exists>x. r = Inr x \<and> f x = Inl e)"
  by (cases r) simp_all

lemma sequence_err_eq_Inr: "sequence_err rs = Inr xs \<longleftrightarrow> rs = map Inr xs"
proof (induction rs arbitrary: xs)
  case Nil
  show ?case by auto
next
  case (Cons r rs)
  show ?case
  proof (cases r)
    case (Inl e)
    then show ?thesis by (cases xs) auto
  next
    case (Inr x)
    then show ?thesis using Cons.IH by (cases xs) (auto simp: bind_err_eq_Inr)
  qed
qed

lemma sequence_err_map_Inr [simp]: "sequence_err (map Inr xs) = Inr xs"
  by (simp add: sequence_err_eq_Inr)

lemma sequence_err_fails: "(\<exists>e. sequence_err rs = Inl e) \<longleftrightarrow> (\<exists>r \<in> set rs. isl r)"
proof (induction rs)
  case Nil
  show ?case by simp
next
  case (Cons r rs)
  show ?case
  proof (cases r)
    case (Inl e)
    then show ?thesis by simp
  next
    case (Inr x)
    then show ?thesis using Cons.IH
      by (cases "sequence_err rs") auto
  qed
qed

lemma sequence_err_length: "sequence_err rs = Inr xs \<Longrightarrow> length xs = length rs"
  by (auto simp: sequence_err_eq_Inr)

lemma sequence_err_nth: "sequence_err rs = Inr xs \<Longrightarrow> i < length rs \<Longrightarrow> rs ! i = Inr (xs ! i)"
  by (auto simp: sequence_err_eq_Inr)

lemma ex_set_map_nth: "(\<exists>r \<in> set (map f xs). P r) \<longleftrightarrow> (\<exists>i < length xs. P (f (xs ! i)))"
  by (metis (no_types, lifting) in_set_conv_nth length_map nth_map)

lemma init_weights_result:
  assumes "init_weights wi ls = Inr ws"
  shows "length ws = length ls - 1"
    and "i + 1 < length ls \<Longrightarrow> wi (ls ! (i + 1)) (ls ! i) = Inr (ws ! i)"
proof -
  let ?ps = "zip (tl ls) (butlast ls)"
  have len: "length ?ps = length ls - 1" by simp
  from assms have seq: "sequence_err (map (\<lambda>(nout, nin). wi nout nin) ?ps) = Inr ws"
    by (simp add: init_weights_def)
  from sequence_err_length[OF seq] show "length ws = length ls - 1" by simp
  assume i: "i + 1 < length ls"
  then have "?ps ! i = (ls ! (i + 1), ls ! i)"
    by (simp add: nth_tl nth_butlast)
  with sequence_err_nth[OF seq, of i] i show "wi (ls ! (i + 1)) (ls ! i) = Inr (ws ! i)"
    by simp
qed

lemma init_biases_result:
  assumes "init_biases bi ls = Inr bs"
  shows "length bs = length ls - 1"
    and "i + 1 < length ls \<Longrightarrow> bi (ls ! (i + 1)) = Inr (bs ! i)"
proof -
  from assms have seq: "sequence_err (map bi (tl ls)) = Inr bs"
    by (simp add: init_biases_def)
  from sequence_err_length[OF seq] show "length bs = length ls - 1" by simp
  assume i: "i + 1 < length ls"
  with sequence_err_nth[OF seq, of i] show "bi (ls ! (i + 1)) = Inr (bs ! i)"
    by (simp add: nth_tl)
qed

lemma init_weights_fails:
  "(\<exists>e. init_weights wi ls = Inl e) \<longleftrightarrow> (\<exists>i. i + 1 < length ls \<and> isl (wi (ls ! (i + 1)) (ls ! i)))"
proof -
  let ?ps = "zip (tl ls) (butlast ls)"
  have nth: "\<And>i. i + 1 < length ls \<Longrightarrow> ?ps ! i = (ls ! (i + 1), ls ! i)"
    by (simp add: nth_tl nth_butlast)
  have "(\<exists>e. init_weights wi ls = Inl e) \<longleftrightarrow> (\<exists>i < length ?ps. isl (case ?ps ! i of (nout, nin) \<Rightarrow> wi nout nin))"
    unfolding init_weights_def sequence_err_fails ex_set_map_nth ..
  also have "\<dots> \<longleftrightarrow> (\<exists>i. i + 1 < length ls \<and> isl (wi (ls ! (i + 1)) (ls ! i)))"
    using nth by (auto simp: less_diff_conv)
  finally show ?thesis .
qed

lemma init_biases_fails:
  "(\<exists>e. init_biases bi ls = Inl e) \<longleftrightarrow> (\<exists>i. i + 1 < length ls \<and> isl (bi (ls ! (i + 1))))"
proof -
  have "(\<exists>e. init_biases bi ls = Inl e) \<longleftrightarrow> (\<exists>i < length (tl ls). isl (bi (tl ls ! i)))"
    unfolding init_biases_def sequence_err_fails ex_set_map_nth ..
  also have "\<dots> \<longleftrightarrow> (\<exists>i. i + 1 < length ls \<and> isl (bi (ls ! (i + 1))))"
    by (auto simp: nth_tl less_diff_conv)
  finally show ?thesis .
qed


lemma py_get_last: "xs \<noteq> [] \<Longrightarrow> py_get xs (- 1) = Inr (xs ! (length xs - 1))"
  by (cases xs) (auto simp: py_get_def py_index_def nat_diff_distrib' simp flip: of_nat_Suc)

lemma py_get_last_Inr: "py_get xs (- 1) = Inr x \<Longrightarrow> xs \<noteq> [] \<and> x = xs ! (length xs - 1)"
  by (cases xs) (auto simp: py_get_def py_index_def split: if_splits)


lemma py_get_nat_Inr: "py_get xs (int i) = Inr x \<Longrightarrow> i < length xs \<and> x = xs ! i"
  by (auto simp: py_get_def py_index_def split: if_splits)





lemma py_set_Inr_length: "py_set xs i v = Inr ys \<Longrightarrow> length ys = length xs"
  by (auto simp: py_set_def split: option.splits)

text \<open>Unfolding the example network and its initialisers.\<close>

lemmas example_defs = example_MLP_def MLP_def init_weights_def init_biases_def ones_weight_init_def
  zeros_bias_init_def mk_def zeros_def upt_rec

section \<open>Shapes of the array operations\<close>

lemma shape_mk [simp]: "shape (mk r c f) = (r, c)"
  by (simp add: shape_def mk_def)

lemma nrows_mk [simp]: "nrows (mk r c f) = r"
  by (simp add: mk_def)

lemma ncols_mk [simp]: "ncols (mk r c f) = c"
  by (simp add: mk_def)

lemma cell_mk [simp]: "i < r \<Longrightarrow> j < c \<Longrightarrow> cell (mk r c f) i j = f i j"
  by (simp add: cell_def mk_def)

lemma shape_eq: "shape A = (r, c) \<longleftrightarrow> nrows A = r \<and> ncols A = c"
  by (simp add: shape_def)

lemma shape_zeros [simp]: "shape (zeros s) = s"
  by (simp add: zeros_def)

lemma shape_reshape_column [simp]: "shape (reshape_column a) = (length a, 1)"
  by (simp add: reshape_column_def)

lemma shape_transpose_nd [simp]: "shape (transpose_nd A) = (ncols A, nrows A)"
  by (simp add: transpose_nd_def)

lemma shape_smul [simp]: "shape (smul c A) = shape A"
  by (simp add: smul_def shape_def)

lemma shape_sdiv [simp]: "shape (sdiv A n) = shape A"
  by (simp add: sdiv_def shape_def)

lemma dot_eq_Inr:
  "dot A B = Inr C \<Longrightarrow> ncols A = nrows B \<and> shape C = (nrows A, ncols B)"
  by (auto simp: dot_def split: if_splits)

lemma dot_succeeds:
  "ncols A = nrows B \<Longrightarrow> \<exists>C. dot A B = Inr C \<and> shape C = (nrows A, ncols B)"
  by (simp add: dot_def)

lemma elementwise_same_shape:
  "shape A = shape B \<Longrightarrow> \<exists>C. elementwise f A B = Inr C \<and> shape C = shape A"
  by (auto simp: elementwise_def shape_def bcompat_def bdim_def mk_def)

lemma elementwise_eq_Inr_same_shape:
  "elementwise f A B = Inr C \<Longrightarrow> shape A = shape B \<Longrightarrow> shape C = shape A"
  by (auto simp: elementwise_def shape_def bdim_def mk_def split: if_splits)

lemma affine_succeeds:
  assumes "ncols w = nrows a" and "ncols a = 1" and "shape b = (nrows w, 1)"
  shows "\<exists>z. affine w a b = Inr z \<and> shape z = (nrows w, 1)"
proof -
  from dot_succeeds[OF assms(1)] obtain d where d: "dot w a = Inr d" "shape d = (nrows w, ncols a)"
    by blast
  with assms have "shape d = shape b" by simp
  from elementwise_same_shape[OF this, of "(+)"] d assms show ?thesis
    by (auto simp: affine_def add_def)
qed

lemma affine_eq_Inr_shape:
  assumes "affine w a b = Inr z" and "ncols a = 1" and "shape b = (nrows w, 1)"
  shows "ncols w = nrows a \<and> shape z = (nrows w, 1)"
proof -
  from assms(1) obtain d where d: "dot w a = Inr d" "add d b = Inr z"
    by (auto simp: affine_def bind_err_eq_Inr)
  from dot_eq_Inr[OF d(1)] assms have s: "ncols w = nrows a" "shape d = shape b" by simp_all
  from elementwise_eq_Inr_same_shape[OF d(2)[unfolded add_def] s(2)] s assms show ?thesis by simp
qed


section \<open>What the methods do to the object\<close>


lemma return_m_apply: "return_m x m = (Inr x, m)"
  by (simp add: return_m_def)

lemma bind_m_attribute: "bind_m (attribute field) f m = f (field m) m"
  by (simp add: bind_m_def attribute_def)

lemma bind_m_compute:
  "bind_m (compute r) f m = (case r of Inl e \<Rightarrow> (Inl e, m) | Inr x \<Rightarrow> f x m)"
  by (simp add: bind_m_def compute_def split: sum.splits)

lemma bind_m_reads:
  assumes "p m = (r, m)"
  shows "bind_m p f m = (case r of Inl e \<Rightarrow> (Inl e, m) | Inr x \<Rightarrow> f x m)"
  using assms by (simp add: bind_m_def split: sum.splits)

lemmas method_simps = return_m_apply bind_m_attribute bind_m_compute

lemma feed_forward_steps_reads:
  "feed_forward_steps wbs a m = (feed_forward_loop (activation m) wbs a, m)"
  by (induction wbs arbitrary: a)
     (auto simp: method_simps bind_err_def split: sum.splits)

lemma feed_forward_method_reads: "feed_forward_method a m = (feed_forward m a, m)"
  unfolding feed_forward_method_def feed_forward_def
  by (simp add: method_simps bind_m_reads[OF feed_forward_steps_reads] bind_err_def
      split: sum.splits)

lemma trace_steps_reads:
  "trace_steps wbs a activs zs m = (trace_loop (activation m) wbs a activs zs, m)"
  by (induction wbs arbitrary: a activs zs)
     (auto simp: method_simps bind_err_def split: sum.splits)

lemma get_activations_and_zs_method_reads:
  "get_activations_and_zs_method a m = (get_activations_and_zs m a, m)"
  unfolding get_activations_and_zs_method_def get_activations_and_zs_def
  by (simp add: method_simps bind_m_reads[OF trace_steps_reads] bind_err_def
      split: sum.splits prod.splits)

lemma backward_steps_reads:
  "backward_steps activs zs k delta wd bd m = (backward_loop m activs zs k delta wd bd, m)"
  by (induction k arbitrary: delta wd bd)
     (simp_all add: method_simps bind_err_def split: sum.splits)

lemma backward_method_reads: "backward_method a targets m = (backward m a targets, m)"
  unfolding backward_method_def backward_def Let_def
  by (simp add: method_simps bind_m_reads[OF get_activations_and_zs_method_reads]
      backward_steps_reads bind_err_def split: sum.splits prod.splits)

lemma predict_steps_reads:
  "predict_steps X predictions m = (predict_loop m X predictions, m)"
  by (induction X arbitrary: predictions)
     (simp_all add: method_simps bind_m_reads[OF feed_forward_method_reads] bind_err_def
      split: sum.splits)

lemma predict_method_reads: "predict_method X m = (predict m X, m)"
  by (simp add: predict_method_def predict_def predict_steps_reads)

lemma accumulate_steps_reads:
  "accumulate_steps examples wg bg m = (accumulate m examples wg bg, m)"
  by (induction examples arbitrary: wg bg)
     (auto simp: method_simps bind_m_reads[OF backward_method_reads] bind_err_def
      split: sum.splits prod.splits)


lemma bind_m_assign_weights: "bind_m (assign_weights ws) f m = f () (m\<lparr>weights := ws\<rparr>)"
  by (simp add: bind_m_def assign_weights_def)

lemma assign_biases_apply: "assign_biases bs m = (Inr (), m\<lparr>biases := bs\<rparr>)"
  by (simp add: assign_biases_def)

lemma process_batch_method_result:
  "process_batch_method batch class_column lr m =
     (case snd (process_batch m batch class_column lr) of None \<Rightarrow> Inr () | Some e \<Rightarrow> Inl e,
      fst (process_batch m batch class_column lr))"
  unfolding process_batch_method_def process_batch_def Let_def
  by (simp add: method_simps bind_m_reads[OF accumulate_steps_reads] bind_m_assign_weights
      assign_biases_apply split: sum.splits prod.splits)

lemma process_batches_method_result:
  "process_batches_method batches class_column lr m =
     (case snd (process_batches m batches class_column lr) of None \<Rightarrow> Inr () | Some e \<Rightarrow> Inl e,
      fst (process_batches m batches class_column lr))"
proof (induction batches arbitrary: m)
  case Nil
  show ?case by (simp add: return_m_apply)
next
  case (Cons batch batches)
  obtain m1 r where p: "process_batch m batch class_column lr = (m1, r)"
    by (cases "process_batch m batch class_column lr")
  show ?case
    by (cases r) (simp_all add: bind_m_def process_batch_method_result p Cons.IH)
qed

section \<open>Construction\<close>

lemma MLP_outcomes:
  "(length ls < 2 \<longrightarrow>
      MLP ls act ld ad oa od tf wi bi =
        Inr \<lparr> activation = act, loss_derv = ld, activation_derv = ad, output_activ = oa,
              output_derv = od, target_fit = tf, weight_init = wi, bias_init = bi,
              weights = [], biases = [] \<rparr>) \<and>
   ((\<exists>e. MLP ls act ld ad oa od tf wi bi = Inl e) \<longleftrightarrow>
      (\<exists>i. i + 1 < length ls \<and> (isl (wi (ls ! (i + 1)) (ls ! i)) \<or> isl (bi (ls ! (i + 1)))))) \<and>
   (\<forall>m. MLP ls act ld ad oa od tf wi bi = Inr m \<longrightarrow>
      length (weights m) = length ls - 1 \<and> length (biases m) = length ls - 1 \<and>
      (\<forall>i. i + 1 < length ls \<longrightarrow>
         wi (ls ! (i + 1)) (ls ! i) = Inr (weights m ! i) \<and> bi (ls ! (i + 1)) = Inr (biases m ! i)))"
proof (intro conjI allI impI)
  assume short: "length ls < 2"
  then have "tl ls = []" by (cases ls) auto
  then show "MLP ls act ld ad oa od tf wi bi =
        Inr \<lparr> activation = act, loss_derv = ld, activation_derv = ad, output_activ = oa,
              output_derv = od, target_fit = tf, weight_init = wi, bias_init = bi,
              weights = [], biases = [] \<rparr>"
    by (simp add: MLP_def init_weights_def init_biases_def)
next
  have "(\<exists>e. MLP ls act ld ad oa od tf wi bi = Inl e) \<longleftrightarrow>
        (\<exists>e. init_weights wi ls = Inl e) \<or> (\<exists>e. init_biases bi ls = Inl e)"
    by (cases "init_weights wi ls"; cases "init_biases bi ls") (auto simp: MLP_def)
  then show "(\<exists>e. MLP ls act ld ad oa od tf wi bi = Inl e) \<longleftrightarrow>
      (\<exists>i. i + 1 < length ls \<and> (isl (wi (ls ! (i + 1)) (ls ! i)) \<or> isl (bi (ls ! (i + 1)))))"
    unfolding init_weights_fails init_biases_fails by blast
next
  fix m
  assume ok: "MLP ls act ld ad oa od tf wi bi = Inr m"
  then obtain ws bs where ws: "init_weights wi ls = Inr ws" and bs: "init_biases bi ls = Inr bs"
    and m: "weights m = ws" "biases m = bs"
    by (auto simp: MLP_def bind_err_eq_Inr)
  show "length (weights m) = length ls - 1" using init_weights_result(1)[OF ws] m by simp
  show "length (biases m) = length ls - 1" using init_biases_result(1)[OF bs] m by simp
  fix i
  assume i: "i + 1 < length ls"
  show "wi (ls ! (i + 1)) (ls ! i) = Inr (weights m ! i)"
    using init_weights_result(2)[OF ws i] m by simp
  show "bi (ls ! (i + 1)) = Inr (biases m ! i)"
    using init_biases_result(2)[OF bs i] m by simp
qed

text \<open>
  C5 (as amended). The constructor does not look at the layer sizes themselves. A
  sequence of fewer than two sizes gives a network without weights and biases; in
  general the construction fails exactly when one of the initialiser calls
  \<open>weight_init(ls[i+1], ls[i])\<close>, \<open>bias_init(ls[i+1])\<close> fails, and a network that is
  returned holds \<open>len(ls) - 1\<close> weights and biases, the results of these calls in order.
\<close>

theorem MLP_construction:
  "(length ls < 2 \<longrightarrow>
      MLP ls act ld ad oa od tf wi bi =
        Inr \<lparr> activation = act, loss_derv = ld, activation_derv = ad, output_activ = oa,
              output_derv = od, target_fit = tf, weight_init = wi, bias_init = bi,
              weights = [], biases = [] \<rparr>) \<and>
   ((\<exists>e. MLP ls act ld ad oa od tf wi bi = Inl e) \<longleftrightarrow>
      (\<exists>i. i + 1 < length ls \<and> (isl (wi (ls ! (i + 1)) (ls ! i)) \<or> isl (bi (ls ! (i + 1)))))) \<and>
   (\<forall>m. MLP ls act ld ad oa od tf wi bi = Inr m \<longrightarrow>
      length (weights m) = length ls - 1 \<and> length (biases m) = length ls - 1 \<and>
      (\<forall>i. i + 1 < length ls \<longrightarrow>
         wi (ls ! (i + 1)) (ls ! i) = Inr (weights m ! i) \<and> bi (ls ! (i + 1)) = Inr (biases m ! i)))"
  by (rule MLP_outcomes)

text \<open>The theorem at the sequences \<open>[3]\<close> and \<open>[2, 2, 1]\<close>.\<close>

theorem MLP_construction_witness:
  "example_MLP [3] =
     Inr \<lparr> activation = relu, loss_derv = mse_derv, activation_derv = relu_derv,
           output_activ = linear, output_derv = linear_derv, target_fit = scalar_target,
           weight_init = ones_weight_init, bias_init = zeros_bias_init,
           weights = [], biases = [] \<rparr> \<and>
   example_MLP [2, 2, 1] = Inr example_net \<and>
   length (weights example_net) = 2 \<and> length (biases example_net) = 2 \<and>
   ones_weight_init 2 2 = Inr (weights example_net ! 0) \<and>
   zeros_bias_init 1 = Inr (biases example_net ! 1)"
proof -
  have ok: "example_MLP [2, 2, 1] = Inr example_net"
    by (simp add: example_defs example_net_def)
  have short: "length [3::int] < 2" by simp
  note c = MLP_construction [of "[3]" relu mse_derv relu_derv linear linear_derv scalar_target
        ones_weight_init zeros_bias_init]
  note d = MLP_construction [of "[2, 2, 1]" relu mse_derv relu_derv linear linear_derv scalar_target
        ones_weight_init zeros_bias_init]
  from c short have 1: "example_MLP [3] =
     Inr \<lparr> activation = relu, loss_derv = mse_derv, activation_derv = relu_derv,
           output_activ = linear, output_derv = linear_derv, target_fit = scalar_target,
           weight_init = ones_weight_init, bias_init = zeros_bias_init,
           weights = [], biases = [] \<rparr>"
    unfolding example_MLP_def by blast
  from d ok have 2: "length (weights example_net) = length [2, 2, 1::int] - 1 \<and>
      length (biases example_net) = length [2, 2, 1::int] - 1 \<and>
      (\<forall>i. i + 1 < length [2, 2, 1::int] \<longrightarrow>
         ones_weight_init ([2, 2, 1] ! (i + 1)) ([2, 2, 1] ! i) = Inr (weights example_net ! i) \<and>
         zeros_bias_init ([2, 2, 1] ! (i + 1)) = Inr (biases example_net ! i))"
    unfolding example_MLP_def by blast
  from 2 have 3: "length (weights example_net) = 2" "length (biases example_net) = 2" by simp_all
  from 2 have "0 + 1 < length [2, 2, 1::int] \<longrightarrow>
         ones_weight_init ([2, 2, 1] ! (0 + 1)) ([2, 2, 1] ! 0) = Inr (weights example_net ! 0) \<and>
         zeros_bias_init ([2, 2, 1] ! (0 + 1)) = Inr (biases example_net ! 0)" by blast
  then have 4: "ones_weight_init 2 2 = Inr (weights example_net ! 0)" by simp
  from 2 have "1 + 1 < length [2, 2, 1::int] \<longrightarrow>
         ones_weight_init ([2, 2, 1] ! (1 + 1)) ([2, 2, 1] ! 1) = Inr (weights example_net ! 1) \<and>
         zeros_bias_init ([2, 2, 1] ! (1 + 1)) = Inr (biases example_net ! 1)" by blast
  then have 5: "zeros_bias_init 1 = Inr (biases example_net ! 1)" by simp
  from 1 ok 3 4 5 show ?thesis by blast
qed

text \<open>
  C5 as stated fails: the empty sequence and a sequence with a layer of size 0 both give
  a network.
\<close>

theorem MLP_construction_counterexample:
  "example_MLP [] =
     Inr \<lparr> activation = relu, loss_derv = mse_derv, activation_derv = relu_derv,
           output_activ = linear, output_derv = linear_derv, target_fit = scalar_target,
           weight_init = ones_weight_init, bias_init = zeros_bias_init,
           weights = [], biases = [] \<rparr> \<and>
   example_MLP [3, 0, 2] =
     Inr \<lparr> activation = relu, loss_derv = mse_derv, activation_derv = relu_derv,
           output_activ = linear, output_derv = linear_derv, target_fit = scalar_target,
           weight_init = ones_weight_init, bias_init = zeros_bias_init,
           weights = [NDArray 0 3 [], NDArray 2 0 [[], []]],
           biases = [NDArray 0 1 [], NDArray 2 1 [[0], [0]]] \<rparr>"
  by (simp add: example_defs)

section \<open>Training on an empty data set\<close>

lemma mini_batches_loop_empty:
  "df_empty t_data \<Longrightarrow> mini_batches_loop smp mbs t_data g acc = Some (Inr (acc, g))"
  by (subst mini_batches_loop.simps) simp

lemma train_loop_empty:
  "df_empty t_data \<Longrightarrow>
   train_loop smp t_data mbs lr col es (m, g, out) = Some ((m, g, out @ map Suc es), None)"
  by (induction es arbitrary: out)
     (simp_all add: initialize_mini_batches_def mini_batches_loop_empty)

text \<open>
  C10. On an empty data set, for every number of epochs \<open>E \<ge> 0\<close> and every
  mini-batch size \<open>> 0\<close>, each epoch is partitioned into no batch, \<open>train\<close>
  returns without an exception, the network is the one it was given, and the completion
  line is printed once per epoch: for the epochs 1 to \<open>E\<close>, \<open>E\<close> lines in all.
\<close>

theorem train_empty_dataset:
  assumes "df_empty training_data" and "0 \<le> epochs" and "0 < mini_batch_size"
  shows "initialize_mini_batches smp g training_data mini_batch_size = Some (Inr ([], g)) \<and>
         train smp g m training_data epochs mini_batch_size learning_rate class_column =
           Some ((m, g, map Suc [0..<nat epochs]), None) \<and>
         int (length (map Suc [0..<nat epochs])) = epochs"
  using assms
  by (simp add: train_def train_loop_empty initialize_mini_batches_def mini_batches_loop_empty)

text \<open>The theorem on an empty frame with two columns, three epochs and batches of two.\<close>

theorem train_empty_dataset_witness:
  "df_empty \<lparr>columns = [''x1'', ''target''], rows = []\<rparr> \<and> (0::int) \<le> 3 \<and> (0::int) < 2 \<and>
   initialize_mini_batches first_rows 0 \<lparr>columns = [''x1'', ''target''], rows = []\<rparr> 2 = Some (Inr ([], 0)) \<and>
   train first_rows 0 example_net \<lparr>columns = [''x1'', ''target''], rows = []\<rparr> 3 2 (1 / 10) ''target'' =
     Some ((example_net, 0, [1, 2, 3]), None)"
proof -
  have e: "df_empty \<lparr>columns = [''x1'', ''target''], rows = []\<rparr>" by (simp add: df_empty_def)
  have n: "(0::int) \<le> 3" "(0::int) < 2" by simp_all
  have l: "map Suc [0..<nat 3] = [1, 2, 3]" by (simp add: upt_rec)
  from train_empty_dataset [OF e n, of first_rows 0 example_net "1 / 10" "''target''"] e n l
  show ?thesis by simp
qed


section \<open>The mini-batch size is not checked\<close>

lemma df_sample_negative: "n < 0 \<Longrightarrow> df_sample smp g n df = Inl ValueError"
  by (simp add: df_sample_def)

lemma mini_batches_loop_negative:
  assumes "\<not> df_empty t_data" and "mbs < 0"
  shows "mini_batches_loop smp mbs t_data g acc = Some (Inl ValueError)"
proof -
  from assms(2) have "min mbs (int (df_len t_data)) < 0" by simp
  then have "df_sample smp g (min mbs (int (df_len t_data))) t_data = Inl ValueError"
    by (rule df_sample_negative)
  with assms(1) show ?thesis by (subst mini_batches_loop.simps) simp
qed

text \<open>
  C6 (as amended). \<open>train\<close> does not check the mini-batch size. On an empty data
  set, or with no epoch to run, it returns normally whatever the mini-batch size is. On
  a data set with rows and at least one epoch, a negative mini-batch size makes the first
  sampling call raise ValueError, which reaches the caller before any parameter is
  updated and before any line is printed.
\<close>

theorem train_mini_batch_size_unchecked:
  "(df_empty training_data \<or> epochs \<le> 0 \<longrightarrow>
      train smp g m training_data epochs mini_batch_size learning_rate class_column =
        Some ((m, g, map Suc [0..<nat epochs]), None)) \<and>
   (\<not> df_empty training_data \<and> 0 < epochs \<and> mini_batch_size < 0 \<longrightarrow>
      train smp g m training_data epochs mini_batch_size learning_rate class_column =
        Some ((m, g, []), Some ValueError))"
proof (intro conjI impI)
  assume "df_empty training_data \<or> epochs \<le> 0"
  then show "train smp g m training_data epochs mini_batch_size learning_rate class_column =
        Some ((m, g, map Suc [0..<nat epochs]), None)"
    by (auto simp: train_def train_loop_empty)
next
  assume a: "\<not> df_empty training_data \<and> 0 < epochs \<and> mini_batch_size < 0"
  then have "nat epochs \<noteq> 0" by simp
  then obtain k where k: "nat epochs = Suc k" by (cases "nat epochs") auto
  then have "[0..<nat epochs] = 0 # [1..<Suc k]" by (simp add: upt_rec)
  with a show "train smp g m training_data epochs mini_batch_size learning_rate class_column =
        Some ((m, g, []), Some ValueError)"
    by (simp add: train_def initialize_mini_batches_def mini_batches_loop_negative)
qed

text \<open>Both cases at a concrete input, with the mini-batch size -4.\<close>

theorem train_mini_batch_size_unchecked_witness:
  "df_empty \<lparr>columns = [''x1'', ''target''], rows = []\<rparr> \<and>
   train first_rows 0 example_net \<lparr>columns = [''x1'', ''target''], rows = []\<rparr> 2 (- 4) (1 / 10) ''target'' =
     Some ((example_net, 0, [1, 2]), None) \<and>
   \<not> df_empty example_data \<and> (0::int) < 2 \<and> (- 4::int) < 0 \<and>
   train first_rows 0 example_net example_data 2 (- 4) (1 / 10) ''target'' =
     Some ((example_net, 0, []), Some ValueError)"
proof -
  have e: "df_empty \<lparr>columns = [''x1'', ''target''], rows = []\<rparr>" by (simp add: df_empty_def)
  have ne: "\<not> df_empty example_data" by (simp add: df_empty_def example_data_def)
  have l: "map Suc [0..<nat 2] = [1, 2]" by (simp add: upt_rec)
  note t1 = train_mini_batch_size_unchecked [of "\<lparr>columns = [''x1'', ''target''], rows = []\<rparr>" 2
      first_rows 0 example_net "- 4" "1 / 10" "''target''"]
  note t2 = train_mini_batch_size_unchecked [of example_data 2
      first_rows 0 example_net "- 4" "1 / 10" "''target''"]
  from t1 e l have 1: "train first_rows 0 example_net \<lparr>columns = [''x1'', ''target''], rows = []\<rparr> 2 (- 4) (1 / 10) ''target'' =
     Some ((example_net, 0, [1, 2]), None)" by simp
  from t2 ne have 2: "train first_rows 0 example_net example_data 2 (- 4) (1 / 10) ''target'' =
     Some ((example_net, 0, []), Some ValueError)" by simp
  from 1 2 e ne show ?thesis by simp
qed

text \<open>
  C6 as stated fails: on an empty data set \<open>train\<close> returns normally with the
  mini-batch sizes 0 and -4.
\<close>

theorem train_mini_batch_size_counterexample:
  "train first_rows 0 example_net \<lparr>columns = [''x1'', ''target''], rows = []\<rparr> 1 0 (1 / 10) ''target'' =
     Some ((example_net, 0, [1]), None) \<and>
   train first_rows 0 example_net \<lparr>columns = [''x1'', ''target''], rows = []\<rparr> 1 (- 4) (1 / 10) ''target'' =
     Some ((example_net, 0, [1]), None)"
  by (simp add: train_def initialize_mini_batches_def mini_batches_loop.simps df_empty_def)

text \<open>
  With the mini-batch size 0 on a data set with rows, every sample is empty, nothing is
  dropped, and the partition loop never ends: \<open>train\<close> does not return.
\<close>

lemma df_drop_nothing: "df_drop t_data [] = Inr t_data"
  by (simp add: df_drop_def)

lemma mini_batches_loop_zero_aux:
  assumes "mini_batches_loop smp mbs t_data g acc = Some y"
  shows "\<not> (mbs = 0 \<and> \<not> df_empty t_data \<and> (\<forall>g len. fst (smp g 0 len) = []))"
proof (rule mini_batches_loop.raw_induct
    [where P = "\<lambda>smp mbs t_data g acc y. \<not> (mbs = 0 \<and> \<not> df_empty t_data \<and> (\<forall>g len. fst (smp g 0 len) = []))",
      OF _ assms])
  fix f :: "'a sampler \<Rightarrow> int \<Rightarrow> dataframe \<Rightarrow> 'a \<Rightarrow> dataframe list \<Rightarrow> (error + dataframe list \<times> 'a) option"
  fix smp mbs t_data g acc y
  assume IH: "\<And>smp mbs t_data g acc y. f smp mbs t_data g acc = Some y \<Longrightarrow>
          \<not> (mbs = 0 \<and> \<not> df_empty t_data \<and> (\<forall>g len. fst (smp g 0 len) = []))"
  assume body: "(if df_empty t_data then Some (Inr (acc, g))
      else case df_sample smp g (min mbs (int (df_len t_data))) t_data of
           Inl e \<Rightarrow> Some (Inl e)
           | Inr (mini_batch, g') \<Rightarrow>
               case df_drop t_data (df_index mini_batch) of
               Inl e \<Rightarrow> Some (Inl e)
               | Inr t_data' \<Rightarrow> f smp mbs t_data' g' (acc @ [mini_batch])) = Some y"
  show "\<not> (mbs = 0 \<and> \<not> df_empty t_data \<and> (\<forall>g len. fst (smp g 0 len) = []))"
  proof
    assume a: "mbs = 0 \<and> \<not> df_empty t_data \<and> (\<forall>g len. fst (smp g 0 len) = [])"
    then have mbs: "mbs = 0" and ne: "\<not> df_empty t_data" by simp_all
    obtain ps g' where s: "smp g 0 (df_len t_data) = (ps, g')" by (cases "smp g 0 (df_len t_data)")
    with a have ps: "ps = []" by (metis fst_conv)
    have "min mbs (int (df_len t_data)) = 0" using mbs by simp
    then have smpl: "df_sample smp g (min mbs (int (df_len t_data))) t_data = Inr (t_data\<lparr>rows := []\<rparr>, g')"
      using s ps by (simp add: df_sample_def)
    from body ne have "f smp mbs t_data g' (acc @ [t_data\<lparr>rows := []\<rparr>]) = Some y"
      unfolding smpl by (simp add: df_index_def df_drop_nothing)
    from IH[OF this] a show False by blast
  qed
qed

lemma mini_batches_loop_zero:
  assumes "\<not> df_empty t_data" and "\<forall>g len. fst (smp g 0 len) = []"
  shows "mini_batches_loop smp 0 t_data g acc = None"
proof (cases "mini_batches_loop smp 0 t_data g acc")
  case None
  then show ?thesis .
next
  case (Some y)
  from mini_batches_loop_zero_aux[OF this] assms show ?thesis by blast
qed

lemma train_zero_mini_batch_size_diverges:
  assumes "\<not> df_empty training_data" and "0 < epochs" and "\<forall>g len. fst (smp g 0 len) = []"
  shows "train smp g m training_data epochs 0 learning_rate class_column = None"
proof -
  from assms(2) obtain k where "nat epochs = Suc k" by (cases "nat epochs") auto
  then have "[0..<nat epochs] = 0 # [1..<Suc k]" by (simp add: upt_rec)
  then show ?thesis
    using mini_batches_loop_zero[of training_data smp g "[]"] assms(1,3)
    by (simp add: train_def initialize_mini_batches_def)
qed

section \<open>Partition into mini-batches\<close>

lemma batch_sizes_zero: "batch_sizes 0 B = []"
  by (simp add: batch_sizes_def)

lemma batch_sizes_small: "0 < N \<Longrightarrow> N < B \<Longrightarrow> batch_sizes N B = [N]"
  by (simp add: batch_sizes_def)

lemma batch_sizes_step: "0 < B \<Longrightarrow> B \<le> N \<Longrightarrow> batch_sizes N B = B # batch_sizes (N - B) B"
proof -
  assume B: "0 < B" and le: "B \<le> N"
  have d: "N div B = Suc ((N - B) div B)" using B le by (simp add: le_div_geq)
  have m: "N mod B = (N - B) mod B" using le by (simp add: le_mod_geq)
  show ?thesis unfolding batch_sizes_def d m by simp
qed

lemma batch_sizes_min:
  "0 < B \<Longrightarrow> 0 < N \<Longrightarrow> batch_sizes N B = min B N # batch_sizes (N - min B N) B"
  by (cases "B \<le> N") (simp_all add: batch_sizes_step batch_sizes_small batch_sizes_zero min_def)

lemma length_batch_sizes: "0 < B \<Longrightarrow> length (batch_sizes N B) = (N + B - 1) div B"
proof -
  assume B: "0 < B"
  have "N + B - 1 = N div B * B + (N mod B + (B - 1))" using B by simp
  then have "(N + B - 1) div B = N div B + (N mod B + (B - 1)) div B"
    using B by (metis div_mult_self3 less_numeral_extra(3))
  moreover have "(N mod B + (B - 1)) div B = (if N mod B = 0 then 0 else 1)"
  proof (cases "N mod B = 0")
    case True
    then show ?thesis using B by simp
  next
    case False
    have "N mod B < B" using B by simp
    then have "B \<le> N mod B + (B - 1)" "N mod B + (B - 1) < 2 * B" using False by linarith+
    then have "(N mod B + (B - 1)) div B = 1"
      by (metis (no_types, lifting) B div_less div_mult_self1 le_add_diff_inverse less_numeral_extra(3) mult_2 nat_add_left_cancel_less add.commute div_add_self1 plus_1_eq_Suc add_0)
    with False show ?thesis by simp
  qed
  ultimately show ?thesis by (simp add: batch_sizes_def)
qed

lemma sum_list_batch_sizes: "sum_list (batch_sizes N B) = N"
proof -
  have "N div B * B + N mod B = N" by simp
  then show ?thesis by (auto simp: batch_sizes_def sum_list_replicate)
qed

lemma nth_batch_sizes: "i + 1 < length (batch_sizes N B) \<Longrightarrow> batch_sizes N B ! i = B"
  by (auto simp: batch_sizes_def nth_append split: if_splits)

lemma last_batch_sizes:
  "0 < B \<Longrightarrow> 0 < N \<Longrightarrow> last (batch_sizes N B) = (if N mod B = 0 then B else N mod B)"
proof -
  assume B: "0 < B" and N: "0 < N"
  show ?thesis
  proof (cases "N mod B = 0")
    case True
    then have "0 < N div B" using B N by (metis div_greater_zero_iff mod_less neq0_conv dual_order.strict_trans2 not_le)
    with True show ?thesis by (simp add: batch_sizes_def)
  next
    case False
    then show ?thesis by (simp add: batch_sizes_def)
  qed
qed


lemma distinct_rows_of_index: "distinct (df_index df) \<Longrightarrow> distinct (rows df)"
  by (simp add: df_index_def distinct_map)

lemma mset_picked_and_rest:
  assumes d: "distinct (map fst xs)" and dp: "distinct ps" and r: "\<forall>p \<in> set ps. p < length xs"
  shows "mset (map (\<lambda>p. xs ! p) ps) + mset (filter (\<lambda>x. fst x \<notin> set (map fst (map (\<lambda>p. xs ! p) ps))) xs)
           = mset xs"
proof -
  let ?S = "map (\<lambda>p. xs ! p) ps"
  from d have dx: "distinct xs" and inj: "inj_on fst (set xs)" by (simp_all add: distinct_map)
  have sub: "set ?S \<subseteq> set xs" using r by auto
  have "inj_on (\<lambda>p. xs ! p) (set ps)"
    using dx r by (auto simp: inj_on_def nth_eq_iff_index_eq)
  with dp have dS: "distinct ?S" by (simp add: distinct_map)
  have keep: "\<And>x. x \<in> set xs \<Longrightarrow> fst x \<in> set (map fst ?S) \<longleftrightarrow> x \<in> set ?S"
  proof
    fix x assume x: "x \<in> set xs" and "fst x \<in> set (map fst ?S)"
    then have "fst x \<in> fst ` set ?S" by (simp only: set_map)
    then obtain y where y: "y \<in> set ?S" "fst y = fst x" by (metis imageE)
    with sub have "y \<in> set xs" by blast
    with inj x y(2) have "y = x" by (auto dest: inj_onD)
    with y(1) show "x \<in> set ?S" by simp
  next
    fix x assume "x \<in> set ?S"
    then show "fst x \<in> set (map fst ?S)" by (metis image_eqI set_map)
  qed
  then have f: "filter (\<lambda>x. fst x \<notin> set (map fst ?S)) xs = filter (\<lambda>x. x \<notin> set ?S) xs"
    by (intro filter_cong) auto
  have "set (filter (\<lambda>x. x \<in> set ?S) xs) = set ?S" using sub by auto
  with dS dx have "mset ?S = mset (filter (\<lambda>x. x \<in> set ?S) xs)"
    by (metis distinct_filter set_eq_iff_mset_eq_distinct)
  then show ?thesis unfolding f by simp
qed

lemma sample_drop_step:
  assumes vs: "valid_sampler smp" and d: "distinct (df_index df)" and B: "0 < B"
  shows "\<exists>mb g' df'.
           df_sample smp g (min B (int (df_len df))) df = Inr (mb, g') \<and>
           df_drop df (df_index mb) = Inr df' \<and>
           df_len mb = min (nat B) (df_len df) \<and>
           columns mb = columns df \<and> columns df' = columns df \<and>
           mset (rows mb) + mset (rows df') = mset (rows df) \<and>
           df_len df' = df_len df - min (nat B) (df_len df) \<and>
           distinct (df_index df')"
proof -
  let ?n = "min (nat B) (df_len df)"
  have n: "nat (min B (int (df_len df))) = ?n" using B by simp
  obtain ps g' where s: "smp g ?n (df_len df) = (ps, g')" by (cases "smp g ?n (df_len df)")
  from vs have "length (fst (smp g ?n (df_len df))) = ?n \<and> distinct (fst (smp g ?n (df_len df))) \<and>
        (\<forall>p \<in> set (fst (smp g ?n (df_len df))). p < df_len df)"
    unfolding valid_sampler_def by (meson min.cobounded2)
  with s have ps: "length ps = ?n" "distinct ps" "\<forall>p \<in> set ps. p < length (rows df)"
    by (simp_all add: df_len_def)
  let ?mb = "df\<lparr>rows := map (\<lambda>p. rows df ! p) ps\<rparr>"
  let ?df' = "df\<lparr>rows := filter (\<lambda>r. fst r \<notin> set (df_index ?mb)) (rows df)\<rparr>"
  have smpl: "df_sample smp g (min B (int (df_len df))) df = Inr (?mb, g')"
    using B s by (simp add: df_sample_def n)
  have "set (df_index ?mb) \<subseteq> set (df_index df)"
    using ps(3) by (auto simp: df_index_def)
  then have drp: "df_drop df (df_index ?mb) = Inr ?df'"
    by (simp add: df_drop_def)
  have ms: "mset (rows ?mb) + mset (rows ?df') = mset (rows df)"
    using mset_picked_and_rest[OF _ ps(2,3)] d by (simp add: df_index_def)
  have "size (mset (rows ?mb) + mset (rows ?df')) = size (mset (rows df))"
    by (simp only: ms)
  then have "length (rows ?mb) + length (rows ?df') = length (rows df)"
    by (simp only: size_union size_mset)
  then have len: "df_len ?df' = df_len df - ?n" using ps(1) by (simp add: df_len_def)
  have dd: "distinct (df_index ?df')"
    using d by (simp add: df_index_def distinct_map_filter)
  from smpl drp ps(1) ms len dd show ?thesis
    by (intro exI[of _ ?mb] exI[of _ g'] exI[of _ ?df']) (simp add: df_len_def)
qed

lemma mini_batches_loop_partition:
  assumes vs: "valid_sampler smp" and B: "0 < B"
  shows "columns df \<noteq> [] \<Longrightarrow> distinct (df_index df) \<Longrightarrow>
         \<exists>bs g'. mini_batches_loop smp B df g acc = Some (Inr (acc @ bs, g')) \<and>
                 map df_len bs = batch_sizes (df_len df) (nat B) \<and>
                 mset (concat (map rows bs)) = mset (rows df) \<and>
                 (\<forall>b \<in> set bs. columns b = columns df)"
proof (induction "df_len df" arbitrary: df g acc rule: less_induct)
  case less
  show ?case
  proof (cases "rows df = []")
    case True
    then have "df_empty df" "df_len df = 0" by (simp_all add: df_empty_def df_len_def)
    then show ?thesis using True
      by (subst mini_batches_loop.simps) (simp add: batch_sizes_zero)
  next
    case False
    with less.prems have ne: "\<not> df_empty df" and pos: "0 < df_len df"
      by (simp_all add: df_empty_def df_len_def)
    from sample_drop_step[OF vs less.prems(2) B, of g]
    obtain mb g1 df' where
      smpl: "df_sample smp g (min B (int (df_len df))) df = Inr (mb, g1)" and
      drp: "df_drop df (df_index mb) = Inr df'" and
      lmb: "df_len mb = min (nat B) (df_len df)" and
      cmb: "columns mb = columns df" and cdf: "columns df' = columns df" and
      ms: "mset (rows mb) + mset (rows df') = mset (rows df)" and
      len: "df_len df' = df_len df - min (nat B) (df_len df)" and
      dd: "distinct (df_index df')"
      by blast
    from B pos len have smaller: "df_len df' < df_len df" by auto
    from less.hyps[OF smaller _ dd, of g1 "acc @ [mb]"] cdf less.prems(1)
    obtain bs g' where
      rec: "mini_batches_loop smp B df' g1 (acc @ [mb]) = Some (Inr ((acc @ [mb]) @ bs, g'))" and
      sz: "map df_len bs = batch_sizes (df_len df') (nat B)" and
      msr: "mset (concat (map rows bs)) = mset (rows df')" and
      cols: "\<forall>b \<in> set bs. columns b = columns df'"
      by auto
    have step: "mini_batches_loop smp B df g acc = mini_batches_loop smp B df' g1 (acc @ [mb])"
      using ne smpl drp by (subst mini_batches_loop.simps) simp
    have "batch_sizes (df_len df) (nat B) = df_len mb # batch_sizes (df_len df') (nat B)"
      using batch_sizes_min[of "nat B" "df_len df"] B pos lmb len by simp
    with sz have sz': "map df_len (mb # bs) = batch_sizes (df_len df) (nat B)" by simp
    have ms': "mset (concat (map rows (mb # bs))) = mset (rows df)" using msr ms by simp
    have cols': "\<forall>b \<in> set (mb # bs). columns b = columns df" using cols cmb cdf by simp
    from step rec sz' ms' cols' show ?thesis
      by (intro exI[of _ "mb # bs"] exI[of _ g']) simp
  qed
qed


text \<open>
  Where the partition is right: on a frame with at least one column whose index labels
  are pairwise distinct, for every \<open>B > 0\<close> and every sampler that draws without
  replacement, \<open>initialize_mini_batches\<close> returns \<open>ceil(N/B)\<close> batches; each one
  but the last has \<open>B\<close> rows and the last has the remainder (\<open>B\<close> when \<open>B\<close>
  divides \<open>N\<close>); the sizes add up to \<open>N\<close>; and the rows of the batches are the rows
  of the frame, each one once. Nothing in the code makes the labels distinct.
\<close>

lemma mini_batches_partition_distinct_labels:
  assumes "valid_sampler smp" and "columns t_data \<noteq> []" and "distinct (df_index t_data)"
    and "0 < df_len t_data" and "0 < mini_batch_size"
  shows "\<exists>bs g'. initialize_mini_batches smp g t_data mini_batch_size = Some (Inr (bs, g')) \<and>
           length bs = (df_len t_data + nat mini_batch_size - 1) div nat mini_batch_size \<and>
           (\<forall>i. i + 1 < length bs \<longrightarrow> df_len (bs ! i) = nat mini_batch_size) \<and>
           df_len (last bs) = (if df_len t_data mod nat mini_batch_size = 0 then nat mini_batch_size
                               else df_len t_data mod nat mini_batch_size) \<and>
           sum_list (map df_len bs) = df_len t_data \<and>
           mset (concat (map rows bs)) = mset (rows t_data) \<and>
           distinct (concat (map rows bs))"
proof -
  let ?N = "df_len t_data" and ?B = "nat mini_batch_size"
  have B: "0 < ?B" using assms(5) by simp
  from mini_batches_loop_partition[OF assms(1,5,2,3), of g "[]"]
  obtain bs g' where
    run: "mini_batches_loop smp mini_batch_size t_data g [] = Some (Inr (bs, g'))" and
    sz: "map df_len bs = batch_sizes ?N ?B" and
    ms: "mset (concat (map rows bs)) = mset (rows t_data)"
    by auto
  have len: "length bs = (?N + ?B - 1) div ?B"
    using length_batch_sizes[OF B, of ?N] sz by (metis length_map)
  have full: "\<forall>i. i + 1 < length bs \<longrightarrow> df_len (bs ! i) = ?B"
  proof (intro allI impI)
    fix i assume i: "i + 1 < length bs"
    then have "i + 1 < length (batch_sizes ?N ?B)" using sz by (metis length_map)
    from nth_batch_sizes[OF this] have "map df_len bs ! i = ?B" using sz by simp
    with i show "df_len (bs ! i) = ?B" by simp
  qed
  have "batch_sizes ?N ?B \<noteq> []" using batch_sizes_min[OF B assms(4)] by simp
  with sz have "bs \<noteq> []" by auto
  then have "df_len (last bs) = last (map df_len bs)" by (simp add: last_map)
  with sz last_batch_sizes[OF B assms(4)]
  have lst: "df_len (last bs) = (if ?N mod ?B = 0 then ?B else ?N mod ?B)" by simp
  have sm: "sum_list (map df_len bs) = ?N" using sz sum_list_batch_sizes by simp
  have "distinct (rows t_data)" using assms(3) by (rule distinct_rows_of_index)
  with ms have dist: "distinct (concat (map rows bs))" by (metis mset_eq_imp_distinct_iff)
  from run len full lst sm ms dist show ?thesis
    unfolding initialize_mini_batches_def by blast
qed

lemma valid_sampler_first_rows: "valid_sampler first_rows"
  by (simp add: valid_sampler_def first_rows_def)

text \<open>Three rows with the labels 0, 1, 2 cut two at a time.\<close>

lemma mini_batches_partition_example:
  "valid_sampler first_rows \<and> columns example_data \<noteq> [] \<and> distinct (df_index example_data) \<and>
   0 < df_len example_data \<and> (0::int) < 2 \<and>
   (\<exists>bs g'. initialize_mini_batches first_rows 0 example_data 2 = Some (Inr (bs, g')) \<and>
      length bs = 2 \<and> (\<forall>i. i + 1 < length bs \<longrightarrow> df_len (bs ! i) = 2) \<and>
      df_len (last bs) = 1 \<and> sum_list (map df_len bs) = 3 \<and>
      mset (concat (map rows bs)) = mset (rows example_data) \<and>
      distinct (concat (map rows bs)))"
proof -
  have h: "columns example_data \<noteq> []" "distinct (df_index example_data)" "0 < df_len example_data"
    by (simp_all add: example_data_def df_index_def df_len_def)
  have b: "(0::int) < 2" by simp
  have n: "df_len example_data = 3" by (simp add: example_data_def df_len_def)
  from mini_batches_partition_distinct_labels[OF valid_sampler_first_rows h b, of 0]
  show ?thesis using valid_sampler_first_rows h b
    by (simp add: n)
qed

text \<open>
  A frame with rows and no column counts as empty (\<open>df.empty\<close> looks at both axes):
  the loop is not entered and no batch comes back.
\<close>

lemma mini_batches_no_column:
  "df_len no_column_data = 2 \<and>
   initialize_mini_batches first_rows 0 no_column_data 1 = Some (Inr ([], 0))"
  by (simp add: initialize_mini_batches_def mini_batches_loop.simps df_empty_def df_len_def
      no_column_data_def)

text \<open>
  C4. The partition of \<open>N > 0\<close> rows into batches of \<open>B > 0\<close> is to give
  \<open>ceil(N/B)\<close> batches whose sizes add up to \<open>N\<close>, every row in exactly one of
  them. The code does not: it removes the sampled rows from the remaining frame by index
  label (\<open>t_data.drop(mini_batch.index)\<close>), and labels may repeat. On the frame of
  three rows labelled 0, 0, 1 with \<open>B = 1\<close>, the first round samples the row
  \<open>(0, [1, 1])\<close> and drops both rows labelled 0: the call returns two batches instead
  of three, their sizes add up to 2, and the row \<open>(0, [2, 0])\<close> is in none of them.
\<close>

theorem mini_batches_duplicate_labels_lose_row:
  "df_len duplicate_index_data = 3 \<and>
   columns duplicate_index_data \<noteq> [] \<and>
   (0, [2, 0]) \<in> set (rows duplicate_index_data) \<and>
   initialize_mini_batches first_rows 0 duplicate_index_data 1 =
     Some (Inr ([\<lparr>columns = [''x1'', ''target''], rows = [(0, [1, 1])]\<rparr>,
                 \<lparr>columns = [''x1'', ''target''], rows = [(1, [3, 1])]\<rparr>], 2)) \<and>
   (0, [2, 0]) \<notin> set (concat (map rows
       [\<lparr>columns = [''x1'', ''target''], rows = [(0, [1, 1])]\<rparr>,
        \<lparr>columns = [''x1'', ''target''], rows = [(1, [3, 1::real])]\<rparr>]))"
  by (simp add: initialize_mini_batches_def mini_batches_loop.simps df_empty_def df_len_def
      df_sample_def df_drop_def df_index_def first_rows_def duplicate_index_data_def upt_rec)

section \<open>The forward pass\<close>

lemma trace_loop_append:
  "trace_loop act (xs @ ys) a activs zs =
     bind_err (trace_loop act xs a activs zs) (\<lambda>(a', activs', zs'). trace_loop act ys a' activs' zs')"
proof (induction xs arbitrary: a activs zs)
  case Nil
  show ?case by simp
next
  case (Cons x xs)
  obtain w b where x: "x = (w, b)" by (cases x)
  show ?case unfolding x by (cases "affine w a b") (simp_all add: Cons.IH)
qed

lemma feed_forward_loop_trace:
  "feed_forward_loop act wbs a =
     bind_err (trace_loop act wbs a activs zs) (\<lambda>r. Inr (fst r))"
proof (induction wbs arbitrary: a activs zs)
  case Nil
  show ?case by simp
next
  case (Cons x xs)
  obtain w b where x: "x = (w, b)" by (cases x)
  show ?case unfolding x by (cases "affine w a b") (simp_all add: Cons.IH)
qed

lemma trace_loop_result:
  "trace_loop act wbs a activs zs = Inr (a', activs', zs') \<Longrightarrow>
   \<exists>as zs2. activs' = activs @ as \<and> zs' = zs @ zs2 \<and> length as = length wbs \<and>
            length zs2 = length wbs \<and> a' = last (a # as) \<and>
            (\<forall>i<length wbs. affine (fst (wbs ! i)) ((a # as) ! i) (snd (wbs ! i)) = Inr (zs2 ! i) \<and>
                             as ! i = act (zs2 ! i))"
proof (induction wbs arbitrary: a activs zs)
  case Nil
  then show ?case by simp
next
  case (Cons x xs)
  obtain w b where x: "x = (w, b)" by (cases x)
  from Cons.prems obtain z where z: "affine w a b = Inr z"
    and rest: "trace_loop act xs (act z) (activs @ [act z]) (zs @ [z]) = Inr (a', activs', zs')"
    by (auto simp: x bind_err_eq_Inr)
  from Cons.IH[OF rest] obtain as zs2 where
    r: "activs' = (activs @ [act z]) @ as" "zs' = (zs @ [z]) @ zs2" "length as = length xs"
       "length zs2 = length xs" "a' = last (act z # as)"
       "\<forall>i<length xs. affine (fst (xs ! i)) ((act z # as) ! i) (snd (xs ! i)) = Inr (zs2 ! i) \<and>
                        as ! i = act (zs2 ! i)"
    by blast
  have "\<forall>i<length (x # xs). affine (fst ((x # xs) ! i)) ((a # act z # as) ! i) (snd ((x # xs) ! i)) = Inr ((z # zs2) ! i) \<and>
                             (act z # as) ! i = act ((z # zs2) ! i)"
  proof (intro allI impI)
    fix i assume i: "i < length (x # xs)"
    show "affine (fst ((x # xs) ! i)) ((a # act z # as) ! i) (snd ((x # xs) ! i)) = Inr ((z # zs2) ! i) \<and>
                             (act z # as) ! i = act ((z # zs2) ! i)"
    proof (cases i)
      case 0
      then show ?thesis using z x by simp
    next
      case (Suc k)
      with i r(6) show ?thesis by simp
    qed
  qed
  with r show ?case
    by (intro exI[of _ "act z # as"] exI[of _ "z # zs2"]) simp
qed

lemma feed_forward_trace:
  "feed_forward m a = bind_err (get_activations_and_zs m a) (\<lambda>r. Inr (last (fst r)))"
proof -
  let ?t = "trace_loop (activation m) (zip (butlast (weights m)) (butlast (biases m)))
              (reshape_column a) [reshape_column a] []"
  show ?thesis
  proof (cases ?t)
    case (Inl e)
    then show ?thesis
      by (simp add: feed_forward_def get_activations_and_zs_def feed_forward_loop_trace[where activs = "[reshape_column a]" and zs = "[]"])
  next
    case (Inr r)
    obtain a' activs zs where r: "r = (a', activs, zs)" by (cases r)
    show ?thesis
      unfolding feed_forward_def get_activations_and_zs_def
        feed_forward_loop_trace[where activs = "[reshape_column a]" and zs = "[]"] Inr r
      by (cases "py_get (weights m) (- 1)"; cases "py_get (biases m) (- 1)";
          simp; cases "dot (projr (py_get (weights m) (- 1))) a'"; simp;
          cases "add (projr (dot (projr (py_get (weights m) (- 1))) a')) (projr (py_get (biases m) (- 1)))"; simp)
  qed
qed


lemma last_Cons_nth: "last (x # xs) = (x # xs) ! length xs"
  by (metis last_conv_nth length_Cons diff_Suc_1 list.discI)

lemma get_activations_and_zs_result:
  assumes r: "get_activations_and_zs m a = Inr (activs, zs)"
    and eq: "length (weights m) = length (biases m)"
  shows "weights m \<noteq> []"
    and "length activs = length (weights m) + 1"
    and "length zs = length (weights m)"
    and "activs ! 0 = reshape_column a"
    and "i < length (weights m) \<Longrightarrow>
           affine (weights m ! i) (activs ! i) (biases m ! i) = Inr (zs ! i) \<and>
           activs ! (i + 1) = layer_function m i (zs ! i)"
proof -
  let ?L = "length (weights m)"
  let ?wbs = "zip (butlast (weights m)) (butlast (biases m))"
  let ?a0 = "reshape_column a"
  from r obtain a' activs0 zs0 w d b z where
    t: "trace_loop (activation m) ?wbs ?a0 [?a0] [] = Inr (a', activs0, zs0)" and
    w: "py_get (weights m) (- 1) = Inr w" and d: "dot w a' = Inr d" and
    b: "py_get (biases m) (- 1) = Inr b" and z: "add d b = Inr z" and
    res: "activs = activs0 @ [output_activ m z]" "zs = zs0 @ [z]"
    unfolding get_activations_and_zs_def by (auto simp: bind_err_eq_Inr)
  from py_get_last_Inr[OF w] have ne: "weights m \<noteq> []" and w': "w = weights m ! (?L - 1)"
    by simp_all
  from py_get_last_Inr[OF b] eq have b': "b = biases m ! (?L - 1)" by simp
  have lw: "length ?wbs = ?L - 1" using eq by simp
  from trace_loop_result[OF t] lw obtain as zs2 where
    q: "activs0 = ?a0 # as" "zs0 = zs2" "length as = ?L - 1" "length zs2 = ?L - 1"
       "a' = last (?a0 # as)"
       "\<forall>i<?L - 1. affine (fst (?wbs ! i)) ((?a0 # as) ! i) (snd (?wbs ! i)) = Inr (zs2 ! i) \<and>
                     as ! i = activation m (zs2 ! i)"
    by auto
  define As where "As = ?a0 # as"
  have lAs: "length As = ?L" using q(3) ne by (simp add: As_def)
  have activs: "activs = As @ [output_activ m z]" using res(1) q(1) by (simp add: As_def)
  have zs: "zs = zs2 @ [z]" using res(2) q(2) by simp
  have a': "a' = As ! (?L - 1)" using q(5) q(3) unfolding As_def by (simp only: last_Cons_nth)
  have As0: "As ! 0 = ?a0" by (simp add: As_def)
  have AsS: "\<And>k. As ! (k + 1) = as ! k" by (simp add: As_def)
  show "weights m \<noteq> []" by (rule ne)
  from ne have L: "0 < ?L" by simp
  show la: "length activs = ?L + 1" using activs lAs by simp
  show lz: "length zs = ?L" using zs q(4) L by simp
  show "activs ! 0 = ?a0" using activs lAs L As0 by (simp add: nth_append)
  assume i: "i < ?L"
  then have ai: "activs ! i = As ! i" using activs lAs by (simp add: nth_append)
  show "affine (weights m ! i) (activs ! i) (biases m ! i) = Inr (zs ! i) \<and>
           activs ! (i + 1) = layer_function m i (zs ! i)"
  proof (cases "i + 1 = ?L")
    case True
    then have i': "i = ?L - 1" by simp
    have zi: "zs ! i = z" using zs q(4) i' by (simp add: nth_append)
    have ao: "activs ! (i + 1) = output_activ m z" using activs lAs True by (simp add: nth_append)
    have "affine (weights m ! i) a' (biases m ! i) = Inr z"
      using d z w' b' i' by (simp add: affine_def)
    with ai a' i' zi ao True show ?thesis by (simp add: layer_function_def)
  next
    case False
    with i have i': "i < ?L - 1" by simp
    then have wb: "?wbs ! i = (weights m ! i, biases m ! i)"
      using eq by (simp add: nth_butlast)
    from q(6) i' have st: "affine (fst (?wbs ! i)) (As ! i) (snd (?wbs ! i)) = Inr (zs2 ! i)"
      "as ! i = activation m (zs2 ! i)" by (simp_all add: As_def)
    have zi: "zs ! i = zs2 ! i" using zs q(4) i' by (simp add: nth_append)
    from i' have "i + 1 < length As" using lAs by linarith
    then have "activs ! (i + 1) = As ! (i + 1)" unfolding activs by (simp only: nth_append if_True)
    then have an: "activs ! (i + 1) = as ! i" using AsS by simp
    from st wb ai zi an False show ?thesis by (simp add: layer_function_def)
  qed
qed


lemma wf_net_shapes:
  assumes "wf_net ls m" and "i + 1 < length ls"
  shows "nrows (weights m ! i) = ls ! (i + 1)" and "ncols (weights m ! i) = ls ! i"
    and "shape (biases m ! i) = (ls ! (i + 1), 1)"
  using assms by (simp_all add: wf_net_def shape_eq)

lemma wf_net_lengths:
  assumes "wf_net ls m"
  shows "length (weights m) = length ls - 1" and "length (biases m) = length ls - 1"
  using assms by (simp_all add: wf_net_def)

lemma shape_presD: "shape_pres f \<Longrightarrow> shape (f A) = shape A"
  by (simp add: shape_pres_def)

lemma trace_loop_take_succeeds:
  assumes wf: "wf_net ls m" and a: "length a = ls ! 0" and sp: "shape_pres (activation m)"
  shows "k + 2 \<le> length ls \<Longrightarrow>
         \<exists>a' activs' zs'.
           trace_loop (activation m) (take k (zip (butlast (weights m)) (butlast (biases m))))
             (reshape_column a) [reshape_column a] [] = Inr (a', activs', zs') \<and>
           shape a' = (ls ! k, 1)"
proof (induction k)
  case 0
  show ?case using a by simp
next
  case (Suc k)
  let ?wbs = "zip (butlast (weights m)) (butlast (biases m))"
  from Suc.prems have k: "k + 2 < length ls" by simp
  then have "k + 2 \<le> length ls" by simp
  from Suc.IH[OF this] obtain a' activs' zs' where
    t: "trace_loop (activation m) (take k ?wbs) (reshape_column a) [reshape_column a] []
          = Inr (a', activs', zs')" and sa: "shape a' = (ls ! k, 1)"
    by blast
  have lw: "length ?wbs = length ls - 2" using wf_net_lengths[OF wf] by simp
  with k have kl: "k < length ?wbs" by simp
  then have nth: "?wbs ! k = (weights m ! k, biases m ! k)"
    using wf_net_lengths[OF wf] by (simp add: nth_butlast)
  have tk: "take (Suc k) ?wbs = take k ?wbs @ [(weights m ! k, biases m ! k)]"
    using take_Suc_conv_app_nth[OF kl] nth by simp
  from k have k1: "k + 1 < length ls" by simp
  from wf_net_shapes[OF wf k1] sa
  have "ncols (weights m ! k) = nrows a'" "ncols a' = 1"
       "shape (biases m ! k) = (nrows (weights m ! k), 1)"
    by (simp_all add: shape_eq)
  from affine_succeeds[OF this] obtain z where
    z: "affine (weights m ! k) a' (biases m ! k) = Inr z" "shape z = (nrows (weights m ! k), 1)"
    by blast
  with wf_net_shapes(1)[OF wf k1] sp have "shape (activation m z) = (ls ! Suc k, 1)"
    by (simp add: shape_presD)
  with t z(1) show ?case unfolding tk trace_loop_append by simp
qed

lemma get_activations_and_zs_succeeds:
  assumes wf: "wf_net ls m" and l: "2 \<le> length ls" and a: "length a = ls ! 0"
    and sp: "shape_pres (activation m)"
  shows "\<exists>activs zs. get_activations_and_zs m a = Inr (activs, zs)"
proof -
  let ?wbs = "zip (butlast (weights m)) (butlast (biases m))"
  let ?L = "length (weights m)"
  have L: "?L = length ls - 1" "length (biases m) = length ls - 1"
    using wf_net_lengths[OF wf] by simp_all
  have lw: "length ?wbs = length ls - 2" using L by simp
  from l have "(length ls - 2) + 2 \<le> length ls" by simp
  from trace_loop_take_succeeds[OF wf a sp this] lw obtain a' activs' zs' where
    t: "trace_loop (activation m) ?wbs (reshape_column a) [reshape_column a] []
          = Inr (a', activs', zs')" and sa: "shape a' = (ls ! (length ls - 2), 1)"
    by auto
  from l L have ne: "weights m \<noteq> []" "biases m \<noteq> []" by auto
  from l have i: "(length ls - 2) + 1 < length ls" by simp
  have idx: "?L - Suc 0 = length ls - 2" "length (biases m) - Suc 0 = length ls - 2"
    using L by simp_all
  from wf_net_shapes[OF wf i] sa
  have "ncols (weights m ! (length ls - 2)) = nrows a'" "ncols a' = 1"
       "shape (biases m ! (length ls - 2)) = (nrows (weights m ! (length ls - 2)), 1)"
    by (simp_all add: shape_eq)
  from affine_succeeds[OF this] obtain z where
    "affine (weights m ! (length ls - 2)) a' (biases m ! (length ls - 2)) = Inr z"
    by blast
  then obtain d where "dot (weights m ! (length ls - 2)) a' = Inr d"
    "add d (biases m ! (length ls - 2)) = Inr z"
    by (auto simp: affine_def bind_err_eq_Inr)
  with t show ?thesis
    unfolding get_activations_and_zs_def
    by (simp add: py_get_last[OF ne(1)] py_get_last[OF ne(2)] idx)
qed

text \<open>
  C3. For every network with the shapes of its layer sizes and every input vector of
  length \<open>ls[0]\<close>, \<open>get_activations_and_zs\<close> returns the lists \<open>activs\<close> and
  \<open>zs\<close> with: \<open>activs[0]\<close> the input as a column; for each layer \<open>i\<close>,
  \<open>zs[i] = Weight[i] \<cdot> activs[i] + Bias[i]\<close> and \<open>activs[i+1]\<close> the activation of
  \<open>zs[i]\<close>, by the output activation at the last layer only; that is \<open>L + 1\<close>
  activations and \<open>L\<close> pre-activations in order. \<open>feed_forward\<close> returns the last
  of these activations.
\<close>

theorem forward_recurrence:
  assumes "wf_net ls m" and "2 \<le> length ls" and "length a = ls ! 0"
    and "shape_pres (activation m)"
  shows "\<exists>activs zs.
           get_activations_and_zs m a = Inr (activs, zs) \<and>
           feed_forward m a = Inr (last activs) \<and>
           length activs = length (weights m) + 1 \<and> length zs = length (weights m) \<and>
           activs ! 0 = reshape_column a \<and>
           (\<forall>i<length (weights m).
              affine (weights m ! i) (activs ! i) (biases m ! i) = Inr (zs ! i) \<and>
              activs ! (i + 1) =
                (if i + 1 = length (weights m) then output_activ m else activation m) (zs ! i))"
proof -
  from get_activations_and_zs_succeeds[OF assms] obtain activs zs where
    r: "get_activations_and_zs m a = Inr (activs, zs)" by blast
  have eq: "length (weights m) = length (biases m)" using wf_net_lengths[OF assms(1)] by simp
  note res = get_activations_and_zs_result[OF r eq]
  have ff: "feed_forward m a = Inr (last activs)" by (simp add: feed_forward_trace r)
  from r ff res(2,3,4) res(5) show ?thesis
    unfolding layer_function_def by blast
qed

lemma wf_net_example_net: "wf_net [2, 2, 1] example_net"
  by (auto simp: wf_net_def example_net_def shape_def less_Suc_eq numeral_3_eq_3)

lemma shape_pres_relu: "shape_pres relu"
  by (simp add: shape_pres_def relu_def shape_def)

text \<open>The theorem on the example network and the input \<open>(1, 2)\<close>.\<close>

theorem forward_recurrence_witness:
  "wf_net [2, 2, 1] example_net \<and> 2 \<le> length [2, 2, 1::nat] \<and> length [1, 2::real] = [2, 2, 1] ! 0 \<and>
   shape_pres (activation example_net) \<and>
   (\<exists>activs zs.
      get_activations_and_zs example_net [1, 2] = Inr (activs, zs) \<and>
      feed_forward example_net [1, 2] = Inr (last activs) \<and>
      length activs = length (weights example_net) + 1 \<and>
      length zs = length (weights example_net) \<and>
      activs ! 0 = reshape_column [1, 2] \<and>
      (\<forall>i<length (weights example_net).
         affine (weights example_net ! i) (activs ! i) (biases example_net ! i) = Inr (zs ! i) \<and>
         activs ! (i + 1) =
           (if i + 1 = length (weights example_net) then output_activ example_net
            else activation example_net) (zs ! i)))"
proof -
  have l: "2 \<le> length [2, 2, 1::nat]" by simp
  have a: "length [1, 2::real] = [2, 2, 1] ! 0" by simp
  have sp: "shape_pres (activation example_net)"
    using shape_pres_relu by (simp add: example_net_def)
  from forward_recurrence[OF wf_net_example_net l a sp] wf_net_example_net l a sp
  show ?thesis by blast
qed

section \<open>The backward pass\<close>

lemma py_get_suc_Inr: "py_get xs (int i + 1) = Inr x \<Longrightarrow> i + 1 < length xs \<and> x = xs ! (i + 1)"
  using py_get_nat_Inr[of xs "i + 1" x] by (simp add: add.commute)

lemma py_set_nat_Inr: "py_set xs (int i) v = Inr ys \<Longrightarrow> i < length xs \<and> ys = xs[i := v]"
  by (auto simp: py_set_def py_index_def split: if_splits)

lemma backward_loop_result:
  "backward_loop m activs zs k delta wd bd = Inr (wd', bd') \<Longrightarrow>
   k < length bd \<Longrightarrow> length wd = length bd \<Longrightarrow> delta = bd ! k \<Longrightarrow>
   length wd' = length wd \<and> length bd' = length bd \<and>
   (\<forall>j. k \<le> j \<longrightarrow> wd' ! j = wd ! j \<and> bd' ! j = bd ! j) \<and>
   (\<forall>i<k. (\<exists>d. dot (transpose_nd (weights m ! (i + 1))) (bd' ! (i + 1)) = Inr d \<and>
                 mul d (activation_derv m (zs ! i)) = Inr (bd' ! i)) \<and>
            dot (bd' ! i) (transpose_nd (activs ! i)) = Inr (wd' ! i))"
proof (induction k arbitrary: delta wd bd)
  case 0
  then show ?case by simp
next
  case (Suc i)
  from Suc.prems(1) obtain w d z delta' bd1 a wdi wd1 where
    w: "py_get (weights m) (int i + 1) = Inr w" and
    d: "dot (transpose_nd w) delta = Inr d" and
    z: "py_get zs (int i) = Inr z" and
    dl: "mul d (activation_derv m z) = Inr delta'" and
    b1: "py_set bd (int i) delta' = Inr bd1" and
    a: "py_get activs (int i) = Inr a" and
    wi: "dot delta' (transpose_nd a) = Inr wdi" and
    w1: "py_set wd (int i) wdi = Inr wd1" and
    rec: "backward_loop m activs zs i delta' wd1 bd1 = Inr (wd', bd')"
    by (auto simp: bind_err_eq_Inr)
  from py_get_suc_Inr[OF w] have w': "w = weights m ! (i + 1)" by simp
  from py_get_nat_Inr[OF z] have z': "z = zs ! i" by simp
  from py_get_nat_Inr[OF a] have a': "a = activs ! i" by simp
  from py_set_nat_Inr[OF b1] have bd1: "bd1 = bd[i := delta']" and ib: "i < length bd" by simp_all
  from py_set_nat_Inr[OF w1] have wd1: "wd1 = wd[i := wdi]" by simp
  have l1: "i < length bd1" "length wd1 = length bd1" "delta' = bd1 ! i"
    using ib Suc.prems(3) by (simp_all add: bd1 wd1)
  from Suc.IH[OF rec l1] have
    len: "length wd' = length wd1" "length bd' = length bd1" and
    keep: "\<forall>j. i \<le> j \<longrightarrow> wd' ! j = wd1 ! j \<and> bd' ! j = bd1 ! j" and
    low: "\<forall>j<i. (\<exists>d. dot (transpose_nd (weights m ! (j + 1))) (bd' ! (j + 1)) = Inr d \<and>
                 mul d (activation_derv m (zs ! j)) = Inr (bd' ! j)) \<and>
            dot (bd' ! j) (transpose_nd (activs ! j)) = Inr (wd' ! j)"
    by blast+
  have bi: "bd' ! i = delta'" using keep l1(3) by simp
  have wii: "wd' ! i = wdi" using keep ib Suc.prems(3) by (simp add: wd1)
  have up: "\<forall>j. Suc i \<le> j \<longrightarrow> wd' ! j = wd ! j \<and> bd' ! j = bd ! j"
    using keep by (simp add: bd1 wd1)
  then have bs: "bd' ! (i + 1) = delta" using Suc.prems(4) by simp
  have at_i: "(\<exists>d. dot (transpose_nd (weights m ! (i + 1))) (bd' ! (i + 1)) = Inr d \<and>
                 mul d (activation_derv m (zs ! i)) = Inr (bd' ! i)) \<and>
            dot (bd' ! i) (transpose_nd (activs ! i)) = Inr (wd' ! i)"
    using d dl wi unfolding bi bs wii w' z' a' by blast
  have "\<forall>j<Suc i. (\<exists>d. dot (transpose_nd (weights m ! (j + 1))) (bd' ! (j + 1)) = Inr d \<and>
                 mul d (activation_derv m (zs ! j)) = Inr (bd' ! j)) \<and>
            dot (bd' ! j) (transpose_nd (activs ! j)) = Inr (wd' ! j)"
    using low at_i by (auto simp: less_Suc_eq)
  with len up show ?case by (simp add: bd1 wd1)
qed

lemma py_get_second_last_Inr:
  "py_get xs (- 2) = Inr x \<Longrightarrow> 2 \<le> length xs \<and> x = xs ! (length xs - 2)"
  by (auto simp: py_get_def py_index_def nat_diff_distrib' split: if_splits)

lemma py_set_last_Inr: "py_set xs (- 1) v = Inr ys \<Longrightarrow> xs \<noteq> [] \<and> ys = xs[length xs - 1 := v]"
  by (cases xs) (auto simp: py_set_def py_index_def nat_diff_distrib' split: if_splits simp flip: of_nat_Suc)

lemma backward_result:
  assumes b: "backward m a t = Inr (wd, bd)" and eq: "length (weights m) = length (biases m)"
  shows "\<exists>activs zs.
           get_activations_and_zs m a = Inr (activs, zs) \<and>
           length wd = length (weights m) \<and> length bd = length (weights m) \<and>
           mul (loss_derv m (activs ! length (weights m)) t)
               (output_derv m (zs ! (length (weights m) - 1))) = Inr (bd ! (length (weights m) - 1)) \<and>
           (\<forall>i. i + 1 < length (weights m) \<longrightarrow>
              (\<exists>d. dot (transpose_nd (weights m ! (i + 1))) (bd ! (i + 1)) = Inr d \<and>
                    mul d (activation_derv m (zs ! i)) = Inr (bd ! i))) \<and>
           (\<forall>i<length (weights m). dot (bd ! i) (transpose_nd (activs ! i)) = Inr (wd ! i))"
proof -
  let ?L = "length (weights m)"
  let ?wd0 = "map (\<lambda>w. zeros (shape w)) (weights m)"
  let ?bd0 = "map (\<lambda>b. zeros (shape b)) (biases m)"
  from b obtain activs zs a_out z_out delta bd1 a_prev wdl wd1 where
    g: "get_activations_and_zs m a = Inr (activs, zs)" and
    ao: "py_get activs (- 1) = Inr a_out" and
    zo: "py_get zs (- 1) = Inr z_out" and
    dl: "mul (loss_derv m a_out t) (output_derv m z_out) = Inr delta" and
    b1: "py_set ?bd0 (- 1) delta = Inr bd1" and
    ap: "py_get activs (- 2) = Inr a_prev" and
    wl: "dot delta (transpose_nd a_prev) = Inr wdl" and
    w1: "py_set ?wd0 (- 1) wdl = Inr wd1" and
    loop: "backward_loop m activs zs (?L - 1) delta wd1 bd1 = Inr (wd, bd)"
    unfolding backward_def Let_def by (auto simp: bind_err_eq_Inr)
  note res = get_activations_and_zs_result[OF g eq]
  from res(1) have L: "0 < ?L" by simp
  from py_get_last_Inr[OF ao] res(2) have a_out: "a_out = activs ! ?L" by simp
  from py_get_last_Inr[OF zo] res(3) have z_out: "z_out = zs ! (?L - 1)" by simp
  from py_get_second_last_Inr[OF ap] res(2) have a_prev: "a_prev = activs ! (?L - 1)" by simp
  from py_set_last_Inr[OF b1] eq have bd1: "bd1 = ?bd0[?L - 1 := delta]" by simp
  from py_set_last_Inr[OF w1] have wd1: "wd1 = ?wd0[?L - 1 := wdl]" by simp
  have l1: "?L - 1 < length bd1" "length wd1 = length bd1" "delta = bd1 ! (?L - 1)"
    using L eq by (simp_all add: bd1 wd1)
  from backward_loop_result[OF loop l1] have
    len: "length wd = length wd1" "length bd = length bd1" and
    keep: "\<forall>j. ?L - 1 \<le> j \<longrightarrow> wd ! j = wd1 ! j \<and> bd ! j = bd1 ! j" and
    low: "\<forall>i<?L - 1. (\<exists>d. dot (transpose_nd (weights m ! (i + 1))) (bd ! (i + 1)) = Inr d \<and>
                 mul d (activation_derv m (zs ! i)) = Inr (bd ! i)) \<and>
            dot (bd ! i) (transpose_nd (activs ! i)) = Inr (wd ! i)"
    by blast+
  have lw: "length wd = ?L" "length bd = ?L" using len eq by (simp_all add: bd1 wd1)
  have bl: "bd ! (?L - 1) = delta" using keep l1(3) by simp
  have wlast: "wd ! (?L - 1) = wdl" using keep L by (simp add: wd1)
  have out: "mul (loss_derv m (activs ! ?L) t) (output_derv m (zs ! (?L - 1))) = Inr (bd ! (?L - 1))"
    using dl unfolding a_out z_out bl .
  have rec: "\<forall>i. i + 1 < ?L \<longrightarrow>
              (\<exists>d. dot (transpose_nd (weights m ! (i + 1))) (bd ! (i + 1)) = Inr d \<and>
                    mul d (activation_derv m (zs ! i)) = Inr (bd ! i))"
    using low by (simp add: less_diff_conv)
  have wg: "\<forall>i<?L. dot (bd ! i) (transpose_nd (activs ! i)) = Inr (wd ! i)"
  proof (intro allI impI)
    fix i assume i: "i < ?L"
    show "dot (bd ! i) (transpose_nd (activs ! i)) = Inr (wd ! i)"
    proof (cases "i = ?L - 1")
      case True
      have "dot (bd ! (?L - 1)) (transpose_nd (activs ! (?L - 1))) = Inr (wd ! (?L - 1))"
        using wl unfolding a_prev bl wlast .
      with True show ?thesis by (simp only:)
    next
      case False
      with i have "i < ?L - 1" by simp
      with low show ?thesis by blast
    qed
  qed
  from g lw out rec wg show ?thesis by blast
qed




lemma elementwise_layer_function:
  "elementwise_functions m \<Longrightarrow> shape (layer_function m i z) = shape z"
  by (simp add: elementwise_functions_def layer_function_def shape_pres_def)

lemma trace_shapes_activs:
  assumes wf: "wf_net ls m" and wff: "elementwise_functions m" and a: "length a = ls ! 0"
    and g: "get_activations_and_zs m a = Inr (activs, zs)"
  shows "i < length ls \<Longrightarrow> shape (activs ! i) = (ls ! i, 1)"
proof (induction i)
  case 0
  have eq: "length (weights m) = length (biases m)" using wf_net_lengths[OF wf] by simp
  from get_activations_and_zs_result(4)[OF g eq] a show ?case by simp
next
  case (Suc i)
  have eq: "length (weights m) = length (biases m)" using wf_net_lengths[OF wf] by simp
  from Suc.prems have i: "i + 1 < length ls" by simp
  then have iL: "i < length (weights m)" using wf_net_lengths[OF wf] by simp
  from Suc.IH i have sa: "shape (activs ! i) = (ls ! i, 1)" by simp
  from get_activations_and_zs_result(5)[OF g eq iL] have
    af: "affine (weights m ! i) (activs ! i) (biases m ! i) = Inr (zs ! i)" and
    nx: "activs ! (i + 1) = layer_function m i (zs ! i)" by simp_all
  from sa have c: "ncols (activs ! i) = 1" by (simp add: shape_eq)
  from wf_net_shapes[OF wf i] have sb: "shape (biases m ! i) = (nrows (weights m ! i), 1)" by simp
  from affine_eq_Inr_shape[OF af c sb] wf_net_shapes(1)[OF wf i]
  have "shape (zs ! i) = (ls ! (i + 1), 1)" by simp
  with nx elementwise_layer_function[OF wff] show ?case by simp
qed

lemma trace_shapes_zs:
  assumes wf: "wf_net ls m" and wff: "elementwise_functions m" and a: "length a = ls ! 0"
    and g: "get_activations_and_zs m a = Inr (activs, zs)" and i: "i + 1 < length ls"
  shows "shape (zs ! i) = (ls ! (i + 1), 1)"
proof -
  have eq: "length (weights m) = length (biases m)" using wf_net_lengths[OF wf] by simp
  from i have iL: "i < length (weights m)" using wf_net_lengths[OF wf] by simp
  from i have "i < length ls" by simp
  from trace_shapes_activs[OF wf wff a g this] have c: "ncols (activs ! i) = 1" by (simp add: shape_eq)
  from get_activations_and_zs_result(5)[OF g eq iL] have
    af: "affine (weights m ! i) (activs ! i) (biases m ! i) = Inr (zs ! i)" by simp
  from wf_net_shapes[OF wf i] have sb: "shape (biases m ! i) = (nrows (weights m ! i), 1)" by simp
  from affine_eq_Inr_shape[OF af c sb] wf_net_shapes(1)[OF wf i] show ?thesis by simp
qed





lemma backward_shapes:
  assumes wf: "wf_net ls m" and wff: "elementwise_functions m" and a: "length a = ls ! 0"
    and lf: "loss_fits m (ls ! (length ls - 1)) t"
    and b: "backward m a t = Inr (wd, bd)"
  shows "i + 1 < length ls \<Longrightarrow> shape (bd ! i) = (ls ! (i + 1), 1)"
    and "i + 1 < length ls \<Longrightarrow> shape (wd ! i) = (ls ! (i + 1), ls ! i)"
proof -
  let ?L = "length (weights m)"
  have lw: "?L = length ls - 1" "length (biases m) = length ls - 1"
    using wf_net_lengths[OF wf] by simp_all
  then have eq: "?L = length (biases m)" by simp
  from backward_result[OF b eq] obtain activs zs where
    g: "get_activations_and_zs m a = Inr (activs, zs)" and
    out: "mul (loss_derv m (activs ! ?L) t) (output_derv m (zs ! (?L - 1))) = Inr (bd ! (?L - 1))" and
    rec: "\<forall>i. i + 1 < ?L \<longrightarrow>
              (\<exists>d. dot (transpose_nd (weights m ! (i + 1))) (bd ! (i + 1)) = Inr d \<and>
                    mul d (activation_derv m (zs ! i)) = Inr (bd ! i))" and
    wg: "\<forall>i<?L. dot (bd ! i) (transpose_nd (activs ! i)) = Inr (wd ! i)"
    by blast
  note sa = trace_shapes_activs[OF wf wff a g]
  note sz = trace_shapes_zs[OF wf wff a g]
  have down: "j + 2 \<le> length ls \<Longrightarrow> shape (bd ! (?L - 1 - j)) = (ls ! (?L - j), 1)" for j
  proof (induction j)
    case 0
    then have L: "0 < ?L" "?L < length ls" "?L - 1 + 1 < length ls" using lw by simp_all
    have s1: "shape (loss_derv m (activs ! ?L) t) = (ls ! ?L, 1)"
      using lf sa[OF L(2)] lw by (simp add: loss_fits_def)
    have s2: "shape (output_derv m (zs ! (?L - 1))) = (ls ! ?L, 1)"
      using wff sz[OF L(3)] L(1) by (simp add: elementwise_functions_def shape_pres_def)
    from elementwise_eq_Inr_same_shape[OF out[unfolded mul_def]] s1 s2 show ?case by simp
  next
    case (Suc j)
    let ?i = "?L - 1 - Suc j"
    from Suc.prems have j: "j + 2 \<le> length ls" and i1: "?i + 1 < ?L" and i2: "?i + 1 = ?L - 1 - j"
      and i3: "?i + 2 = ?L - j" and i4: "?i + 2 < length ls"
      using lw by simp_all
    from Suc.IH[OF j] have sb: "shape (bd ! (?i + 1)) = (ls ! (?i + 2), 1)" using i2 i3 by simp
    from rec i1 obtain d where
      d: "dot (transpose_nd (weights m ! (?i + 1))) (bd ! (?i + 1)) = Inr d" and
      m: "mul d (activation_derv m (zs ! ?i)) = Inr (bd ! ?i)" by blast
    have "(?i + 1) + 1 < length ls" using i4 by simp
    from wf_net_shapes(2)[OF wf this] have cw: "ncols (weights m ! (?i + 1)) = ls ! (?i + 1)" .
    from dot_eq_Inr[OF d] cw sb have sd: "shape d = (ls ! (?i + 1), 1)"
      by (simp add: shape_eq transpose_nd_def)
    have i5: "?i + 1 < length ls" using i4 by simp
    have "shape (activation_derv m (zs ! ?i)) = (ls ! (?i + 1), 1)"
      using wff sz[OF i5] by (simp add: elementwise_functions_def shape_pres_def)
    with sd have "shape d = shape (activation_derv m (zs ! ?i))" by simp
    from elementwise_eq_Inr_same_shape[OF m[unfolded mul_def] this] sd
    have "shape (bd ! ?i) = (ls ! (?i + 1), 1)" by simp
    moreover have "?i + 1 = ?L - Suc j" using i2 by simp
    ultimately show ?case by simp
  qed
  have bshape: "shape (bd ! i) = (ls ! (i + 1), 1)" if i: "i + 1 < length ls" for i
  proof -
    from i have "(?L - 1 - i) + 2 \<le> length ls" "?L - 1 - (?L - 1 - i) = i" "?L - (?L - 1 - i) = i + 1"
      using lw by simp_all
    with down[of "?L - 1 - i"] show ?thesis by simp
  qed
  assume i: "i + 1 < length ls"
  show "shape (bd ! i) = (ls ! (i + 1), 1)" by (rule bshape[OF i])
  from i have iL: "i < ?L" and i0: "i < length ls" using lw by simp_all
  from wg iL have "dot (bd ! i) (transpose_nd (activs ! i)) = Inr (wd ! i)" by blast
  from dot_eq_Inr[OF this] bshape[OF i] sa[OF i0] show "shape (wd ! i) = (ls ! (i + 1), ls ! i)"
    by (simp add: shape_eq transpose_nd_def)
qed




section \<open>One mini-batch\<close>

lemma sequence_err_succeeds: "\<forall>r \<in> set rs. \<not> isl r \<Longrightarrow> \<exists>xs. sequence_err rs = Inr xs"
  using sequence_err_fails[of rs] by (cases "sequence_err rs") auto

lemma zip_with_err_Inr:
  assumes "sequence_err (map (\<lambda>(x, y). f x y) (zip xs ys)) = Inr rs" and "length xs = length ys"
  shows "length rs = length xs" and "i < length xs \<Longrightarrow> f (xs ! i) (ys ! i) = Inr (rs ! i)"
proof -
  from sequence_err_length[OF assms(1)] assms(2) show "length rs = length xs" by simp
  assume i: "i < length xs"
  with assms(2) have "i < length (map (\<lambda>(x, y). f x y) (zip xs ys))" by simp
  from sequence_err_nth[OF assms(1) this] i assms(2) show "f (xs ! i) (ys ! i) = Inr (rs ! i)"
    by simp
qed

lemma zip_with_err_succeeds:
  assumes "length xs = length ys" and "\<And>i. i < length xs \<Longrightarrow> \<exists>r. f (xs ! i) (ys ! i) = Inr r"
  shows "\<exists>rs. sequence_err (map (\<lambda>(x, y). f x y) (zip xs ys)) = Inr rs"
proof (rule sequence_err_succeeds, rule ballI)
  fix r assume "r \<in> set (map (\<lambda>(x, y). f x y) (zip xs ys))"
  then obtain i where i: "i < length (zip xs ys)" and r: "r = (\<lambda>(x, y). f x y) (zip xs ys ! i)"
    by (metis (no_types, lifting) in_set_conv_nth length_map nth_map)
  from i assms(1) have "i < length xs" by simp
  with assms(2)[OF this] r i show "\<not> isl r" by auto
qed

lemma add_same_shape: "shape A = shape B \<Longrightarrow> \<exists>C. add A B = Inr C \<and> shape C = shape A"
  unfolding add_def by (rule elementwise_same_shape)

lemma sub_same_shape: "shape A = shape B \<Longrightarrow> \<exists>C. sub A B = Inr C \<and> shape C = shape A"
  unfolding sub_def by (rule elementwise_same_shape)

lemma backward_lengths:
  assumes "backward m a t = Inr (wd, bd)" and "length (weights m) = length (biases m)"
  shows "length wd = length (weights m)" and "length bd = length (weights m)"
  using backward_result[OF assms] by auto

lemma accumulate_result:
  assumes eq: "length (weights m) = length (biases m)"
  shows "accumulate m examples wg bg = Inr (wg', bg') \<Longrightarrow>
         length wg = length (weights m) \<Longrightarrow> length bg = length (weights m) \<Longrightarrow>
         \<exists>grads. length grads = length examples \<and>
           (\<forall>k<length examples. backward m (fst (examples ! k)) (snd (examples ! k)) = Inr (grads ! k)) \<and>
           length wg' = length (weights m) \<and> length bg' = length (weights m) \<and>
           (\<forall>i<length (weights m).
              sum_gradients (wg ! i) (map (\<lambda>g. fst g ! i) grads) = Inr (wg' ! i) \<and>
              sum_gradients (bg ! i) (map (\<lambda>g. snd g ! i) grads) = Inr (bg' ! i))"
proof (induction examples arbitrary: wg bg)
  case Nil
  then show ?case by simp
next
  case (Cons ex examples)
  obtain inp cls where ex: "ex = (inp, cls)" by (cases ex)
  from Cons.prems(1) obtain wd bd wg1 bg1 where
    b: "backward m inp cls = Inr (wd, bd)" and
    aw: "add_all wg wd = Inr wg1" and ab: "add_all bg bd = Inr bg1" and
    rest: "accumulate m examples wg1 bg1 = Inr (wg', bg')"
    unfolding ex by (auto simp: bind_err_eq_Inr)
  note bl = backward_lengths[OF b eq]
  have lw: "length wg = length wd" "length bg = length bd" using bl Cons.prems(2,3) by simp_all
  note w1 = zip_with_err_Inr[OF aw[unfolded add_all_def] lw(1)]
  note b1 = zip_with_err_Inr[OF ab[unfolded add_all_def] lw(2)]
  have l1: "length wg1 = length (weights m)" "length bg1 = length (weights m)"
    using w1(1) b1(1) Cons.prems(2,3) by simp_all
  from Cons.IH[OF rest l1] obtain grads where
    g: "length grads = length examples"
       "\<forall>k<length examples. backward m (fst (examples ! k)) (snd (examples ! k)) = Inr (grads ! k)"
       "length wg' = length (weights m)" "length bg' = length (weights m)"
       "\<forall>i<length (weights m).
              sum_gradients (wg1 ! i) (map (\<lambda>g. fst g ! i) grads) = Inr (wg' ! i) \<and>
              sum_gradients (bg1 ! i) (map (\<lambda>g. snd g ! i) grads) = Inr (bg' ! i)"
    by blast
  let ?grads = "(wd, bd) # grads"
  have k: "\<forall>k<length (ex # examples).
             backward m (fst ((ex # examples) ! k)) (snd ((ex # examples) ! k)) = Inr (?grads ! k)"
  proof (intro allI impI)
    fix k assume "k < length (ex # examples)"
    then show "backward m (fst ((ex # examples) ! k)) (snd ((ex # examples) ! k)) = Inr (?grads ! k)"
      using b g(2) ex by (cases k) simp_all
  qed
  have s: "\<forall>i<length (weights m).
              sum_gradients (wg ! i) (map (\<lambda>g. fst g ! i) ?grads) = Inr (wg' ! i) \<and>
              sum_gradients (bg ! i) (map (\<lambda>g. snd g ! i) ?grads) = Inr (bg' ! i)"
  proof (intro allI impI)
    fix i assume i: "i < length (weights m)"
    then have "add (wg ! i) (wd ! i) = Inr (wg1 ! i)" "add (bg ! i) (bd ! i) = Inr (bg1 ! i)"
      using w1(2)[of i] b1(2)[of i] Cons.prems(2,3) by simp_all
    with g(5) i show "sum_gradients (wg ! i) (map (\<lambda>g. fst g ! i) ?grads) = Inr (wg' ! i) \<and>
              sum_gradients (bg ! i) (map (\<lambda>g. snd g ! i) ?grads) = Inr (bg' ! i)"
      by simp
  qed
  from g(1,3,4) k s show ?case by (intro exI[of _ ?grads]) simp
qed


lemma backward_Inr_input_length:
  assumes wf: "wf_net ls m" and l: "2 \<le> length ls" and b: "backward m a t = Inr (wd, bd)"
  shows "length a = ls ! 0"
proof -
  have eq: "length (weights m) = length (biases m)" using wf_net_lengths[OF wf] by simp
  from backward_result[OF b eq] obtain activs zs where
    g: "get_activations_and_zs m a = Inr (activs, zs)" by blast
  have L: "0 < length (weights m)" using wf_net_lengths[OF wf] l by simp
  from get_activations_and_zs_result(5)[OF g eq L] get_activations_and_zs_result(4)[OF g eq]
  have "affine (weights m ! 0) (reshape_column a) (biases m ! 0) = Inr (zs ! 0)" by simp
  then obtain d where "dot (weights m ! 0) (reshape_column a) = Inr d"
    by (auto simp: affine_def bind_err_eq_Inr)
  from dot_eq_Inr[OF this] have "ncols (weights m ! 0) = length a"
    by (simp add: reshape_column_def)
  moreover from l have "0 + 1 < length ls" by simp
  from wf_net_shapes(2)[OF wf this] have "ncols (weights m ! 0) = ls ! 0" .
  ultimately show ?thesis by simp
qed

lemma gradient_shapes_backward:
  assumes "wf_net ls m" and "elementwise_functions m" and "2 \<le> length ls"
    and "loss_fits m (ls ! (length ls - 1)) t"
    and "backward m a t = Inr (wd, bd)"
  shows "gradient_shapes ls wd bd"
proof -
  have eq: "length (weights m) = length (biases m)" using wf_net_lengths[OF assms(1)] by simp
  note a = backward_Inr_input_length[OF assms(1,3,5)]
  from backward_lengths[OF assms(5) eq] wf_net_lengths[OF assms(1)]
    backward_shapes[OF assms(1,2) a assms(4,5)]
  show ?thesis by (simp add: gradient_shapes_def)
qed

lemma gradient_shapes_zeros:
  assumes "wf_net ls m"
  shows "gradient_shapes ls (map (\<lambda>w. zeros (shape w)) (weights m))
           (map (\<lambda>b. zeros (shape b)) (biases m))"
  using assms by (simp add: gradient_shapes_def wf_net_def)

lemma gradient_shapes_add_all:
  assumes g: "gradient_shapes ls wg bg" and d: "gradient_shapes ls wd bd"
  shows "\<exists>wg1 bg1. add_all wg wd = Inr wg1 \<and> add_all bg bd = Inr bg1 \<and> gradient_shapes ls wg1 bg1"
proof -
  have lw: "length wg = length wd" "length bg = length bd"
    using g d by (simp_all add: gradient_shapes_def)
  have sw: "\<And>i. i < length wg \<Longrightarrow> shape (wg ! i) = shape (wd ! i)"
    and sb: "\<And>i. i < length bg \<Longrightarrow> shape (bg ! i) = shape (bd ! i)"
    using g d by (simp_all add: gradient_shapes_def less_diff_conv)
  have "\<exists>rs. sequence_err (map (\<lambda>(x, y). add x y) (zip wg wd)) = Inr rs"
    using add_same_shape[OF sw] by (intro zip_with_err_succeeds[OF lw(1)]) blast
  then obtain wg1 where w1: "add_all wg wd = Inr wg1" by (auto simp: add_all_def)
  have "\<exists>rs. sequence_err (map (\<lambda>(x, y). add x y) (zip bg bd)) = Inr rs"
    using add_same_shape[OF sb] by (intro zip_with_err_succeeds[OF lw(2)]) blast
  then obtain bg1 where b1: "add_all bg bd = Inr bg1" by (auto simp: add_all_def)
  note rw = zip_with_err_Inr[OF w1[unfolded add_all_def] lw(1)]
  note rb = zip_with_err_Inr[OF b1[unfolded add_all_def] lw(2)]
  have "gradient_shapes ls wg1 bg1"
    unfolding gradient_shapes_def
  proof (intro conjI allI impI)
    show "length wg1 = length ls - 1" using rw(1) g by (simp add: gradient_shapes_def)
    show "length bg1 = length ls - 1" using rb(1) g by (simp add: gradient_shapes_def)
    fix i assume i: "i + 1 < length ls"
    then have iw: "i < length wg" and ib: "i < length bg"
      using g by (simp_all add: gradient_shapes_def)
    from elementwise_eq_Inr_same_shape[OF rw(2)[OF iw, unfolded add_def] sw[OF iw]] g i
    show "shape (wg1 ! i) = (ls ! (i + 1), ls ! i)" by (simp add: gradient_shapes_def)
    from elementwise_eq_Inr_same_shape[OF rb(2)[OF ib, unfolded add_def] sb[OF ib]] g i
    show "shape (bg1 ! i) = (ls ! (i + 1), 1)" by (simp add: gradient_shapes_def)
  qed
  with w1 b1 show ?thesis by blast
qed

lemma accumulate_shapes:
  assumes wf: "wf_net ls m" and wff: "elementwise_functions m" and l: "2 \<le> length ls"
  shows "accumulate m examples wg bg = Inr (wg', bg') \<Longrightarrow> gradient_shapes ls wg bg \<Longrightarrow>
         \<forall>ex \<in> set examples. loss_fits m (ls ! (length ls - 1)) (snd ex) \<Longrightarrow>
         gradient_shapes ls wg' bg'"
proof (induction examples arbitrary: wg bg)
  case Nil
  then show ?case by simp
next
  case (Cons ex examples)
  obtain inp cls where ex: "ex = (inp, cls)" by (cases ex)
  from Cons.prems(1) obtain wd bd wg1 bg1 where
    b: "backward m inp cls = Inr (wd, bd)" and
    aw: "add_all wg wd = Inr wg1" and ab: "add_all bg bd = Inr bg1" and
    rest: "accumulate m examples wg1 bg1 = Inr (wg', bg')"
    unfolding ex by (auto simp: bind_err_eq_Inr)
  from Cons.prems(3) have lf: "loss_fits m (ls ! (length ls - 1)) cls"
    and lfs: "\<forall>ex \<in> set examples. loss_fits m (ls ! (length ls - 1)) (snd ex)"
    by (simp_all add: ex)
  from gradient_shapes_add_all[OF Cons.prems(2) gradient_shapes_backward[OF wf wff l lf b]] aw ab
  have "gradient_shapes ls wg1 bg1" by auto
  from Cons.IH[OF rest this lfs] show ?case .
qed


lemma descend_Inr:
  assumes "descend lr n params grad = Inr ps" and "length params = length grad"
  shows "length ps = length params"
    and "i < length params \<Longrightarrow> sub (params ! i) (sdiv (smul lr (grad ! i)) n) = Inr (ps ! i)"
  using zip_with_err_Inr[OF assms(1)[unfolded descend_def] assms(2)] by simp_all

lemma descend_succeeds:
  assumes len: "length params = length grad"
    and sh: "\<And>i. i < length params \<Longrightarrow> shape (params ! i) = shape (grad ! i)"
  shows "\<exists>ps. descend lr n params grad = Inr ps \<and> length ps = length params \<and>
              (\<forall>i<length params. shape (ps ! i) = shape (params ! i))"
proof -
  have "\<exists>rs. sequence_err (map (\<lambda>(p, g). sub p (sdiv (smul lr g) n)) (zip params grad)) = Inr rs"
  proof (rule zip_with_err_succeeds[OF len])
    fix i assume "i < length params"
    from sh[OF this] have "shape (params ! i) = shape (sdiv (smul lr (grad ! i)) n)" by simp
    from sub_same_shape[OF this] show "\<exists>r. sub (params ! i) (sdiv (smul lr (grad ! i)) n) = Inr r"
      by blast
  qed
  then obtain ps where ps: "descend lr n params grad = Inr ps" by (auto simp: descend_def)
  note r = descend_Inr[OF ps len]
  have "\<forall>i<length params. shape (ps ! i) = shape (params ! i)"
  proof (intro allI impI)
    fix i assume i: "i < length params"
    from sh[OF i] have s: "shape (params ! i) = shape (sdiv (smul lr (grad ! i)) n)" by simp
    from elementwise_eq_Inr_same_shape[OF r(2)[OF i, unfolded sub_def] s]
    show "shape (ps ! i) = shape (params ! i)" .
  qed
  with ps r(1) show ?thesis by blast
qed




lemma wf_net_update:
  assumes wf: "wf_net ls m"
    and lw: "length ws = length (weights m)" and lb: "length bs = length (biases m)"
    and sw: "\<forall>i<length (weights m). shape (ws ! i) = shape (weights m ! i)"
    and sb: "\<forall>i<length (biases m). shape (bs ! i) = shape (biases m ! i)"
  shows "wf_net ls (m\<lparr>weights := ws, biases := bs\<rparr>)"
  using assms by (simp add: wf_net_def less_diff_conv)

lemma targets_fit_examples:
  assumes "targets_fit m n"
  shows "\<forall>ex \<in> set (zip inputs (map (target_fit m) raw)). loss_fits m n (snd ex)"
proof
  fix ex assume "ex \<in> set (zip inputs (map (target_fit m) raw))"
  then have "(fst ex, snd ex) \<in> set (zip inputs (map (target_fit m) raw))" by simp
  then have "snd ex \<in> set (map (target_fit m) raw)" by (rule set_zip_rightD)
  then obtain c where "snd ex = target_fit m c" by auto
  with assms show "loss_fits m n (snd ex)" by (simp add: targets_fit_def)
qed

lemma process_batch_after_accumulate:
  assumes wf: "wf_net ls m" and wff: "elementwise_functions m" and l: "2 \<le> length ls"
    and tf: "targets_fit m (ls ! (length ls - 1))"
    and raw: "df_column batch class_column = Inr raw"
    and inputs: "df_drop_column batch class_column = Inr inputs"
    and acc: "accumulate m (zip inputs (map (target_fit m) raw))
                (map (\<lambda>w. zeros (shape w)) (weights m)) (map (\<lambda>b. zeros (shape b)) (biases m))
              = Inr (wg, bg)"
  shows "\<exists>m'. process_batch m batch class_column lr = (m', None) \<and> wf_net ls m' \<and>
              m' = m\<lparr>weights := weights m', biases := biases m'\<rparr>"
proof -
  from accumulate_shapes[OF wf wff l acc gradient_shapes_zeros[OF wf] targets_fit_examples[OF tf]]
  have gs: "gradient_shapes ls wg bg" .
  have lw: "length (weights m) = length wg" "length (biases m) = length bg"
    using gs wf_net_lengths[OF wf] by (simp_all add: gradient_shapes_def)
  have sw: "\<And>i. i < length (weights m) \<Longrightarrow> shape (weights m ! i) = shape (wg ! i)"
    using gs wf by (simp add: gradient_shapes_def wf_net_def less_diff_conv)
  have sb: "\<And>i. i < length (biases m) \<Longrightarrow> shape (biases m ! i) = shape (bg ! i)"
    using gs wf by (simp add: gradient_shapes_def wf_net_def less_diff_conv)
  from descend_succeeds[OF lw(1) sw, of lr "length inputs"] obtain ws where
    ws: "descend lr (length inputs) (weights m) wg = Inr ws" "length ws = length (weights m)"
        "\<forall>i<length (weights m). shape (ws ! i) = shape (weights m ! i)" by blast
  from descend_succeeds[OF lw(2) sb, of lr "length inputs"] obtain bs where
    bs: "descend lr (length inputs) (biases m) bg = Inr bs" "length bs = length (biases m)"
        "\<forall>i<length (biases m). shape (bs ! i) = shape (biases m ! i)" by blast
  have p: "process_batch m batch class_column lr = (m\<lparr>weights := ws, biases := bs\<rparr>, None)"
    unfolding process_batch_def Let_def by (simp add: raw inputs acc ws(1) bs(1))
  from wf_net_update[OF wf ws(2) bs(2) ws(3) bs(3)] p show ?thesis by simp
qed

lemma process_batch_wf:
  assumes wf: "wf_net ls m" and wff: "elementwise_functions m" and l: "2 \<le> length ls"
    and tf: "targets_fit m (ls ! (length ls - 1))"
  shows "(\<exists>e. process_batch m batch class_column lr = (m, Some e)) \<or>
         (\<exists>m'. process_batch m batch class_column lr = (m', None) \<and> wf_net ls m' \<and>
               m' = m\<lparr>weights := weights m', biases := biases m'\<rparr>)"
proof (cases "df_column batch class_column")
  case (Inl e)
  then show ?thesis by (simp add: process_batch_def)
next
  case raw: (Inr raw)
  show ?thesis
  proof (cases "df_drop_column batch class_column")
    case (Inl e)
    then show ?thesis by (simp add: process_batch_def raw)
  next
    case inputs: (Inr inputs)
    show ?thesis
    proof (cases "accumulate m (zip inputs (map (target_fit m) raw))
                (map (\<lambda>w. zeros (shape w)) (weights m)) (map (\<lambda>b. zeros (shape b)) (biases m))")
      case (Inl e)
      then show ?thesis by (simp add: process_batch_def raw inputs)
    next
      case (Inr r)
      obtain wg bg where "r = (wg, bg)" by (cases r)
      with Inr process_batch_after_accumulate[OF wf wff l tf raw inputs] show ?thesis by blast
    qed
  qed
qed




text \<open>The parameters this step leaves in the example network, computed.\<close>

lemma example_process_batch:
  "weights (fst (process_batch example_net example_data ''target'' (1 / 2))) =
     [NDArray 2 2 [[- (7 / 6), - (1 / 2)], [- (7 / 6), - (1 / 2)]], NDArray 1 2 [[- (8 / 3), - (8 / 3)]]] \<and>
   biases (fst (process_batch example_net example_data ''target'' (1 / 2))) =
     [NDArray 2 1 [[- (4 / 3)], [- (4 / 3)]], NDArray 1 1 [[- (4 / 3)]]] \<and>
   snd (process_batch example_net example_data ''target'' (1 / 2)) = None"
  by code_simp

section \<open>A training run of one batch\<close>

lemma example_MLP_example_net: "example_MLP [2, 2, 1] = Inr example_net"
  by (simp add: example_defs example_net_def)

lemma example_one_batch:
  "initialize_mini_batches first_rows 0 example_data 3 = Some (Inr ([example_data], 1))"
  by (simp add: initialize_mini_batches_def mini_batches_loop.simps df_empty_def df_len_def
      df_sample_def df_drop_def df_index_def first_rows_def example_data_def upt_rec)

lemma example_train:
  "train first_rows 0 example_net example_data 1 3 (1 / 2) ''target'' =
     Some ((fst (process_batch example_net example_data ''target'' (1 / 2)), 1, [1]), None)"
proof -
  obtain m' r where p: "process_batch example_net example_data ''target'' (1 / 2) = (m', r)"
    by (cases "process_batch example_net example_data ''target'' (1 / 2)")
  with example_process_batch have "r = None" by simp
  with p show ?thesis
    by (simp add: train_def example_one_batch)
qed

section \<open>Counts and shapes of the parameters\<close>

text \<open>What every call of \<open>process_batch\<close> keeps, the loops of \<open>train\<close> keep.\<close>

lemma process_batches_preserves:
  assumes step: "\<forall>m batch. P m \<longrightarrow> P (fst (process_batch m batch class_column lr))"
  shows "P m \<Longrightarrow> P (fst (process_batches m batches class_column lr))"
proof (induction batches arbitrary: m)
  case Nil
  then show ?case by simp
next
  case (Cons batch batches)
  obtain m' r where p: "process_batch m batch class_column lr = (m', r)"
    by (cases "process_batch m batch class_column lr")
  from step[rule_format, OF Cons.prems, of batch] p have inv: "P m'" by simp
  show ?case
  proof (cases r)
    case None
    with p Cons.IH[OF inv] show ?thesis by simp
  next
    case (Some e)
    with p inv show ?thesis by simp
  qed
qed

lemma train_loop_preserves:
  assumes step: "\<forall>m batch. P m \<longrightarrow> P (fst (process_batch m batch class_column lr))"
  shows "P m \<Longrightarrow>
         train_loop smp training_data mbs lr class_column epochs (m, g, out) = Some (st, err) \<Longrightarrow>
         P (fst st)"
proof (induction epochs arbitrary: m g out)
  case Nil
  then show ?case by auto
next
  case (Cons epoch epochs)
  show ?case
  proof (cases "initialize_mini_batches smp g training_data mbs")
    case None
    with Cons.prems(2) show ?thesis by simp
  next
    case (Some r)
    note init = Some
    show ?thesis
    proof (cases r)
      case (Inl e)
      with init Cons.prems show ?thesis by auto
    next
      case (Inr bg)
      obtain batches g' where bg: "bg = (batches, g')" by (cases bg)
      obtain m' r' where p: "process_batches m batches class_column lr = (m', r')"
        by (cases "process_batches m batches class_column lr")
      from process_batches_preserves[of P class_column lr m batches, OF step Cons.prems(1)] p
      have inv: "P m'" by simp
      show ?thesis
      proof (cases r')
        case None
        with init Inr bg p Cons.prems(2)
        have "train_loop smp training_data mbs lr class_column epochs (m', g', out @ [epoch + 1])
                = Some (st, err)" by simp
        from Cons.IH[OF inv this] show ?thesis .
      next
        case (Some e)
        with init Inr bg p Cons.prems(2) inv show ?thesis by auto
      qed
    qed
  qed
qed

text \<open>
  The counts: \<open>backward\<close> returns one gradient per weight and per bias, the sums and
  the new parameters are built by \<open>zip\<close> over lists of that length.
\<close>

lemma process_batch_counts:
  assumes eq: "length (weights m) = length (biases m)"
  shows "length (weights (fst (process_batch m batch class_column lr))) = length (weights m) \<and>
         length (biases (fst (process_batch m batch class_column lr))) = length (biases m)"
proof (cases "df_column batch class_column")
  case (Inl e)
  then show ?thesis by (simp add: process_batch_def)
next
  case raw: (Inr raw)
  show ?thesis
  proof (cases "df_drop_column batch class_column")
    case (Inl e)
    with raw show ?thesis by (simp add: process_batch_def)
  next
    case inputs: (Inr inputs)
    let ?acc = "accumulate m (zip inputs (map (target_fit m) raw))
                  (map (\<lambda>w. zeros (shape w)) (weights m)) (map (\<lambda>b. zeros (shape b)) (biases m))"
    show ?thesis
    proof (cases ?acc)
      case (Inl e)
      with raw inputs show ?thesis by (simp add: process_batch_def)
    next
      case (Inr gs)
      obtain wg bg where gs: "gs = (wg, bg)" by (cases gs)
      with Inr have acc: "?acc = Inr (wg, bg)" by simp
      from accumulate_result[OF eq acc] eq
      have len: "length wg = length (weights m)" "length bg = length (weights m)" by auto
      show ?thesis
      proof (cases "descend lr (length inputs) (weights m) wg")
        case (Inl e)
        with raw inputs acc show ?thesis by (simp add: process_batch_def)
      next
        case ws: (Inr ws)
        from descend_Inr(1)[OF ws] len have lw: "length ws = length (weights m)" by simp
        show ?thesis
        proof (cases "descend lr (length inputs) (biases m) bg")
          case (Inl e)
          with raw inputs acc ws lw show ?thesis by (simp add: process_batch_def)
        next
          case bs: (Inr bs)
          from descend_Inr(1)[OF bs] len eq have lb: "length bs = length (biases m)" by simp
          from raw inputs acc ws bs lw lb show ?thesis by (simp add: process_batch_def)
        qed
      qed
    qed
  qed
qed

lemma process_batch_counts_step:
  "\<forall>m batch. length (weights m) = n \<and> length (biases m) = n \<longrightarrow>
     length (weights (fst (process_batch m batch class_column lr))) = n \<and>
     length (biases (fst (process_batch m batch class_column lr))) = n"
proof (intro allI impI)
  fix m :: mlp and batch
  assume h: "length (weights m) = n \<and> length (biases m) = n"
  then have "length (weights m) = length (biases m)" by simp
  from process_batch_counts[OF this, of batch class_column lr] h
  show "length (weights (fst (process_batch m batch class_column lr))) = n \<and>
        length (biases (fst (process_batch m batch class_column lr))) = n" by simp
qed

text \<open>
  The shapes, for functions that work cell by cell and targets that fit the output. The
  functions of the network are not assigned, so what holds of them holds after the call.
\<close>

lemma process_batch_invariant:
  assumes wf: "wf_net ls m" and ew: "elementwise_functions m" and l: "2 \<le> length ls"
    and tf: "targets_fit m (ls ! (length ls - 1))"
  shows "wf_net ls (fst (process_batch m batch class_column lr)) \<and>
         elementwise_functions (fst (process_batch m batch class_column lr)) \<and>
         targets_fit (fst (process_batch m batch class_column lr)) (ls ! (length ls - 1))"
proof -
  from process_batch_wf[OF wf ew l tf, of batch class_column lr]
  consider e where "process_batch m batch class_column lr = (m, Some e)"
    | m' where "process_batch m batch class_column lr = (m', None)" "wf_net ls m'"
        "m' = m\<lparr>weights := weights m', biases := biases m'\<rparr>"
    by blast
  then show ?thesis
  proof cases
    case 1
    with wf ew tf show ?thesis by simp
  next
    case 2
    from 2(3) obtain ws bs where "m' = m\<lparr>weights := ws, biases := bs\<rparr>" by blast
    then have "elementwise_functions m' = elementwise_functions m"
      and "targets_fit m' (ls ! (length ls - 1)) = targets_fit m (ls ! (length ls - 1))"
      by (simp_all add: elementwise_functions_def targets_fit_def loss_fits_def)
    with 2 ew tf show ?thesis by simp
  qed
qed

lemma process_batch_invariant_step:
  assumes l: "2 \<le> length ls"
  shows "\<forall>m batch. wf_net ls m \<and> elementwise_functions m \<and> targets_fit m (ls ! (length ls - 1)) \<longrightarrow>
     wf_net ls (fst (process_batch m batch class_column lr)) \<and>
     elementwise_functions (fst (process_batch m batch class_column lr)) \<and>
     targets_fit (fst (process_batch m batch class_column lr)) (ls ! (length ls - 1))"
proof (intro allI impI)
  fix m :: mlp and batch
  assume "wf_net ls m \<and> elementwise_functions m \<and> targets_fit m (ls ! (length ls - 1))"
  then have h: "wf_net ls m" "elementwise_functions m" "targets_fit m (ls ! (length ls - 1))"
    by simp_all
  from process_batch_invariant[OF h(1,2) l h(3), of batch class_column lr]
  show "wf_net ls (fst (process_batch m batch class_column lr)) \<and>
     elementwise_functions (fst (process_batch m batch class_column lr)) \<and>
     targets_fit (fst (process_batch m batch class_column lr)) (ls ! (length ls - 1))" .
qed

lemma MLP_wf:
  assumes l: "2 \<le> length ls" and pos: "\<forall>n \<in> set ls. 0 < n"
    and wi: "\<And>nout nin. 0 < nout \<Longrightarrow> 0 < nin \<Longrightarrow>
               \<exists>W. w_init nout nin = Inr W \<and> shape W = (nat nout, nat nin)"
    and bi: "\<And>n. 0 < n \<Longrightarrow> \<exists>B. b_init n = Inr B \<and> shape B = (nat n, 1)"
  shows "\<exists>m. MLP ls act loss_d act_d out out_d t_fit w_init b_init = Inr m \<and> wf_net (map nat ls) m"
proof -
  note c = MLP_outcomes[of ls act loss_d act_d out out_d t_fit w_init b_init]
  have p: "\<And>i. i < length ls \<Longrightarrow> 0 < ls ! i" using pos by simp
  have "\<not> (\<exists>i. i + 1 < length ls \<and> (isl (w_init (ls ! (i + 1)) (ls ! i)) \<or> isl (b_init (ls ! (i + 1)))))"
  proof
    assume "\<exists>i. i + 1 < length ls \<and> (isl (w_init (ls ! (i + 1)) (ls ! i)) \<or> isl (b_init (ls ! (i + 1))))"
    then obtain i where i: "i + 1 < length ls"
      and f: "isl (w_init (ls ! (i + 1)) (ls ! i)) \<or> isl (b_init (ls ! (i + 1)))" by blast
    from i have "0 < ls ! (i + 1)" "0 < ls ! i" using p by simp_all
    with wi[of "ls ! (i + 1)" "ls ! i"] bi[of "ls ! (i + 1)"] f show False by auto
  qed
  with c have "\<not> (\<exists>e. MLP ls act loss_d act_d out out_d t_fit w_init b_init = Inl e)" by blast
  then obtain m where m: "MLP ls act loss_d act_d out out_d t_fit w_init b_init = Inr m"
    by (cases "MLP ls act loss_d act_d out out_d t_fit w_init b_init") auto
  with c have len: "length (weights m) = length ls - 1" "length (biases m) = length ls - 1"
    and el: "\<And>i. i + 1 < length ls \<Longrightarrow>
         w_init (ls ! (i + 1)) (ls ! i) = Inr (weights m ! i) \<and> b_init (ls ! (i + 1)) = Inr (biases m ! i)"
    by blast+
  have "wf_net (map nat ls) m"
    unfolding wf_net_def
  proof (intro conjI allI impI)
    show "length (weights m) = length (map nat ls) - 1" using len by simp
    show "length (biases m) = length (map nat ls) - 1" using len by simp
    fix i assume "i + 1 < length (map nat ls)"
    then have i: "i + 1 < length ls" by simp
    then have ps: "0 < ls ! (i + 1)" "0 < ls ! i" using p by simp_all
    from wi[OF ps] el[OF i] show "shape (weights m ! i) = (map nat ls ! (i + 1), map nat ls ! i)"
      using i by auto
    from bi[OF ps(1)] el[OF i] show "shape (biases m ! i) = (map nat ls ! (i + 1), 1)"
      using i by auto
  qed
  with m show ?thesis by blast
qed

text \<open>
  C7 (as amended). For every sequence \<open>ls\<close> of at least two positive layer sizes and
  initialisers that return arrays of the shapes asked for, the constructor returns a
  network with \<open>len(ls) - 1\<close> weights and as many biases, \<open>Weight[i]\<close> of shape
  \<open>ls[i+1] \<times> ls[i]\<close> and \<open>Bias[i]\<close> a column of length \<open>ls[i+1]\<close>. From every
  network \<open>m\<close> with these counts and shapes: the forward pass, the forward pass with
  trace and the backward pass leave \<open>m\<close> as it is, whether they return or raise; every
  mini-batch update and every training run that ends, with or without an exception,
  keep the two counts; and they keep the shapes as well when the activation functions
  and their derivatives work cell by cell and the loss derivative, given an output
  column and any encoded target, returns a column of the output's length. The last
  condition then holds again of the network left, so the statement applies to every
  later call.
\<close>

theorem shapes_invariant:
  assumes "2 \<le> length ls" and "\<forall>n \<in> set ls. 0 < n"
    and "\<forall>nout nin. 0 < nout \<and> 0 < nin \<longrightarrow>
           (\<exists>W. w_init nout nin = Inr W \<and> shape W = (nat nout, nat nin))"
    and "\<forall>n. 0 < n \<longrightarrow> (\<exists>B. b_init n = Inr B \<and> shape B = (nat n, 1))"
  shows "(\<exists>m0. MLP ls act loss_d act_d out out_d t_fit w_init b_init = Inr m0) \<and>
         (\<forall>m0. MLP ls act loss_d act_d out out_d t_fit w_init b_init = Inr m0 \<longrightarrow>
            length (weights m0) = length ls - 1 \<and> length (biases m0) = length ls - 1 \<and>
            (\<forall>i. i + 1 < length ls \<longrightarrow>
               shape (weights m0 ! i) = (nat (ls ! (i + 1)), nat (ls ! i)) \<and>
               shape (biases m0 ! i) = (nat (ls ! (i + 1)), 1)) \<and>
            wf_net (map nat ls) m0) \<and>
         (\<forall>m. wf_net (map nat ls) m \<longrightarrow>
            (\<forall>a. snd (feed_forward_method a m) = m) \<and>
            (\<forall>a. snd (get_activations_and_zs_method a m) = m) \<and>
            (\<forall>a targets. snd (backward_method a targets m) = m) \<and>
            (\<forall>batch class_column lr.
               length (weights (snd (process_batch_method batch class_column lr m))) = length ls - 1 \<and>
               length (biases (snd (process_batch_method batch class_column lr m))) = length ls - 1) \<and>
            (\<forall>smp (g :: 'g) training_data epochs mbs lr class_column st err.
               train smp g m training_data epochs mbs lr class_column = Some (st, err) \<longrightarrow>
               length (weights (fst st)) = length ls - 1 \<and>
               length (biases (fst st)) = length ls - 1) \<and>
            (elementwise_functions m \<and> targets_fit m (nat (last ls)) \<longrightarrow>
               (\<forall>batch class_column lr.
                  wf_net (map nat ls) (snd (process_batch_method batch class_column lr m)) \<and>
                  elementwise_functions (snd (process_batch_method batch class_column lr m)) \<and>
                  targets_fit (snd (process_batch_method batch class_column lr m)) (nat (last ls))) \<and>
               (\<forall>smp (g :: 'g) training_data epochs mbs lr class_column st err.
                  train smp g m training_data epochs mbs lr class_column = Some (st, err) \<longrightarrow>
                  wf_net (map nat ls) (fst st) \<and> elementwise_functions (fst st) \<and>
                  targets_fit (fst st) (nat (last ls)))))"
proof -
  have wi: "\<And>nout nin. 0 < nout \<Longrightarrow> 0 < nin \<Longrightarrow>
           \<exists>W. w_init nout nin = Inr W \<and> shape W = (nat nout, nat nin)"
    using assms(3) by blast
  have bi: "\<And>n. 0 < n \<Longrightarrow> \<exists>B. b_init n = Inr B \<and> shape B = (nat n, 1)"
    using assms(4) by blast
  note ex = MLP_wf[OF assms(1,2) wi bi, of act loss_d act_d out out_d t_fit]
  from ex
  have A: "\<exists>m0. MLP ls act loss_d act_d out out_d t_fit w_init b_init = Inr m0" by blast
  have B: "\<forall>m0. MLP ls act loss_d act_d out out_d t_fit w_init b_init = Inr m0 \<longrightarrow>
            length (weights m0) = length ls - 1 \<and> length (biases m0) = length ls - 1 \<and>
            (\<forall>i. i + 1 < length ls \<longrightarrow>
               shape (weights m0 ! i) = (nat (ls ! (i + 1)), nat (ls ! i)) \<and>
               shape (biases m0 ! i) = (nat (ls ! (i + 1)), 1)) \<and>
            wf_net (map nat ls) m0"
  proof (intro allI impI)
    fix m0
    assume m0: "MLP ls act loss_d act_d out out_d t_fit w_init b_init = Inr m0"
    with ex
    have wf: "wf_net (map nat ls) m0" by auto
    have len: "length (weights m0) = length ls - 1" "length (biases m0) = length ls - 1"
      using wf_net_lengths[OF wf] by simp_all
    have sh: "\<forall>i. i + 1 < length ls \<longrightarrow>
              shape (weights m0 ! i) = (nat (ls ! (i + 1)), nat (ls ! i)) \<and>
              shape (biases m0 ! i) = (nat (ls ! (i + 1)), 1)"
      using wf by (simp add: wf_net_def)
    show "length (weights m0) = length ls - 1 \<and> length (biases m0) = length ls - 1 \<and>
            (\<forall>i. i + 1 < length ls \<longrightarrow>
               shape (weights m0 ! i) = (nat (ls ! (i + 1)), nat (ls ! i)) \<and>
               shape (biases m0 ! i) = (nat (ls ! (i + 1)), 1)) \<and>
            wf_net (map nat ls) m0"
      by (intro conjI len sh wf)
  qed
  have l: "2 \<le> length (map nat ls)" using assms(1) by simp
  have "ls \<noteq> []" using assms(1) by auto
  then have k: "map nat ls ! (length (map nat ls) - 1) = nat (last ls)"
    by (simp add: last_conv_nth)
  have C: "\<forall>m. wf_net (map nat ls) m \<longrightarrow>
            (\<forall>a. snd (feed_forward_method a m) = m) \<and>
            (\<forall>a. snd (get_activations_and_zs_method a m) = m) \<and>
            (\<forall>a targets. snd (backward_method a targets m) = m) \<and>
            (\<forall>batch class_column lr.
               length (weights (snd (process_batch_method batch class_column lr m))) = length ls - 1 \<and>
               length (biases (snd (process_batch_method batch class_column lr m))) = length ls - 1) \<and>
            (\<forall>smp (g :: 'g) training_data epochs mbs lr class_column st err.
               train smp g m training_data epochs mbs lr class_column = Some (st, err) \<longrightarrow>
               length (weights (fst st)) = length ls - 1 \<and>
               length (biases (fst st)) = length ls - 1) \<and>
            (elementwise_functions m \<and> targets_fit m (nat (last ls)) \<longrightarrow>
               (\<forall>batch class_column lr.
                  wf_net (map nat ls) (snd (process_batch_method batch class_column lr m)) \<and>
                  elementwise_functions (snd (process_batch_method batch class_column lr m)) \<and>
                  targets_fit (snd (process_batch_method batch class_column lr m)) (nat (last ls))) \<and>
               (\<forall>smp (g :: 'g) training_data epochs mbs lr class_column st err.
                  train smp g m training_data epochs mbs lr class_column = Some (st, err) \<longrightarrow>
                  wf_net (map nat ls) (fst st) \<and> elementwise_functions (fst st) \<and>
                  targets_fit (fst st) (nat (last ls))))"
  proof (intro allI impI)
    fix m
    assume wf: "wf_net (map nat ls) m"
    have cnt: "length (weights m) = length ls - 1 \<and> length (biases m) = length ls - 1"
      using wf_net_lengths[OF wf] by simp
    have 1: "\<forall>a. snd (feed_forward_method a m) = m"
      by (simp add: feed_forward_method_reads)
    have 2: "\<forall>a. snd (get_activations_and_zs_method a m) = m"
      by (simp add: get_activations_and_zs_method_reads)
    have 3: "\<forall>a targets. snd (backward_method a targets m) = m"
      by (simp add: backward_method_reads)
    have 4: "\<forall>batch class_column lr.
               length (weights (snd (process_batch_method batch class_column lr m))) = length ls - 1 \<and>
               length (biases (snd (process_batch_method batch class_column lr m))) = length ls - 1"
    proof (intro allI)
      fix batch class_column lr
      from process_batch_counts_step[of "length ls - 1" class_column lr, rule_format, OF cnt, of batch]
      show "length (weights (snd (process_batch_method batch class_column lr m))) = length ls - 1 \<and>
            length (biases (snd (process_batch_method batch class_column lr m))) = length ls - 1"
        by (simp add: process_batch_method_result)
    qed
    have 5: "\<forall>smp (g :: 'g) training_data epochs mbs lr class_column st err.
               train smp g m training_data epochs mbs lr class_column = Some (st, err) \<longrightarrow>
               length (weights (fst st)) = length ls - 1 \<and>
               length (biases (fst st)) = length ls - 1"
    proof (intro allI impI)
      fix smp and g :: 'g and training_data epochs mbs lr class_column st err
      assume "train smp g m training_data epochs mbs lr class_column = Some (st, err)"
      then have t: "train_loop smp training_data mbs lr class_column [0..<nat epochs] (m, g, [])
                      = Some (st, err)"
        by (simp add: train_def)
      from train_loop_preserves[of "\<lambda>m. length (weights m) = length ls - 1 \<and>
                 length (biases m) = length ls - 1" class_column lr m,
          OF process_batch_counts_step cnt t]
      show "length (weights (fst st)) = length ls - 1 \<and> length (biases (fst st)) = length ls - 1" .
    qed
    have 6: "elementwise_functions m \<and> targets_fit m (nat (last ls)) \<longrightarrow>
               (\<forall>batch class_column lr.
                  wf_net (map nat ls) (snd (process_batch_method batch class_column lr m)) \<and>
                  elementwise_functions (snd (process_batch_method batch class_column lr m)) \<and>
                  targets_fit (snd (process_batch_method batch class_column lr m)) (nat (last ls))) \<and>
               (\<forall>smp (g :: 'g) training_data epochs mbs lr class_column st err.
                  train smp g m training_data epochs mbs lr class_column = Some (st, err) \<longrightarrow>
                  wf_net (map nat ls) (fst st) \<and> elementwise_functions (fst st) \<and>
                  targets_fit (fst st) (nat (last ls)))"
    proof (intro impI conjI allI)
      fix batch class_column lr
      assume "elementwise_functions m \<and> targets_fit m (nat (last ls))"
      then have h: "elementwise_functions m" "targets_fit m (map nat ls ! (length (map nat ls) - 1))"
        by (simp_all only: k)
      from process_batch_invariant[OF wf h(1) l h(2), of batch class_column lr]
      have i: "wf_net (map nat ls) (fst (process_batch m batch class_column lr)) \<and>
         elementwise_functions (fst (process_batch m batch class_column lr)) \<and>
         targets_fit (fst (process_batch m batch class_column lr)) (nat (last ls))"
        by (simp only: k)
      from i show "wf_net (map nat ls) (snd (process_batch_method batch class_column lr m))"
        by (simp add: process_batch_method_result)
      from i show "elementwise_functions (snd (process_batch_method batch class_column lr m))"
        by (simp add: process_batch_method_result)
      from i show "targets_fit (snd (process_batch_method batch class_column lr m)) (nat (last ls))"
        by (simp add: process_batch_method_result)
    next
      fix smp and g :: 'g and training_data epochs mbs lr class_column st err
      assume "elementwise_functions m \<and> targets_fit m (nat (last ls))"
      then have h: "wf_net (map nat ls) m \<and> elementwise_functions m \<and>
                    targets_fit m (map nat ls ! (length (map nat ls) - 1))"
        using wf by (simp only: k)
      assume "train smp g m training_data epochs mbs lr class_column = Some (st, err)"
      then have t: "train_loop smp training_data mbs lr class_column [0..<nat epochs] (m, g, [])
                      = Some (st, err)"
        by (simp add: train_def)
      from train_loop_preserves[of "\<lambda>m. wf_net (map nat ls) m \<and> elementwise_functions m \<and>
                    targets_fit m (map nat ls ! (length (map nat ls) - 1))" class_column lr m,
          OF process_batch_invariant_step[OF l] h t]
      have i: "wf_net (map nat ls) (fst st) \<and> elementwise_functions (fst st) \<and>
               targets_fit (fst st) (nat (last ls))"
        by (simp only: k)
      from i show "wf_net (map nat ls) (fst st)" by simp
      from i show "elementwise_functions (fst st)" by simp
      from i show "targets_fit (fst st) (nat (last ls))" by simp
    qed
    show "(\<forall>a. snd (feed_forward_method a m) = m) \<and>
            (\<forall>a. snd (get_activations_and_zs_method a m) = m) \<and>
            (\<forall>a targets. snd (backward_method a targets m) = m) \<and>
            (\<forall>batch class_column lr.
               length (weights (snd (process_batch_method batch class_column lr m))) = length ls - 1 \<and>
               length (biases (snd (process_batch_method batch class_column lr m))) = length ls - 1) \<and>
            (\<forall>smp (g :: 'g) training_data epochs mbs lr class_column st err.
               train smp g m training_data epochs mbs lr class_column = Some (st, err) \<longrightarrow>
               length (weights (fst st)) = length ls - 1 \<and>
               length (biases (fst st)) = length ls - 1) \<and>
            (elementwise_functions m \<and> targets_fit m (nat (last ls)) \<longrightarrow>
               (\<forall>batch class_column lr.
                  wf_net (map nat ls) (snd (process_batch_method batch class_column lr m)) \<and>
                  elementwise_functions (snd (process_batch_method batch class_column lr m)) \<and>
                  targets_fit (snd (process_batch_method batch class_column lr m)) (nat (last ls))) \<and>
               (\<forall>smp (g :: 'g) training_data epochs mbs lr class_column st err.
                  train smp g m training_data epochs mbs lr class_column = Some (st, err) \<longrightarrow>
                  wf_net (map nat ls) (fst st) \<and> elementwise_functions (fst st) \<and>
                  targets_fit (fst st) (nat (last ls))))"
      by (intro conjI 1 2 3 4 5 6)
  qed
  show ?thesis by (intro conjI A B C)
qed

lemma difference_net_built:
  "MLP [2, 2, 1] relu difference_loss relu_derv linear linear_derv scalar_target
     ones_weight_init zeros_bias_init = Inr difference_net"
  by (simp add: example_defs difference_net_def example_net_def)

lemma difference_net_functions:
  "elementwise_functions difference_net" "targets_fit difference_net 1"
proof -
  show "elementwise_functions difference_net"
    by (simp add: elementwise_functions_def difference_net_def example_net_def shape_pres_def
        relu_def relu_derv_def linear_def linear_derv_def shape_def)
  have "\<And>y c. shape y = (1, 1) \<Longrightarrow> shape (difference_loss y (scalar_target c)) = (1, 1)"
  proof -
    fix y c assume "shape y = (1, 1)"
    then have "shape y = shape (scalar_target c)" by (simp add: scalar_target_def shape_def)
    from sub_same_shape[OF this] \<open>shape y = (1, 1)\<close>
    show "shape (difference_loss y (scalar_target c)) = (1, 1)"
      by (auto simp: difference_loss_def)
  qed
  then show "targets_fit difference_net 1"
    by (simp add: targets_fit_def loss_fits_def difference_net_def example_net_def)
qed

lemma difference_net_train:
  "train first_rows 0 difference_net example_data 1 3 (1 / 2) ''target'' =
     Some ((fst (process_batch difference_net example_data ''target'' (1 / 2)), 1, [1]), None)"
proof -
  have "snd (process_batch difference_net example_data ''target'' (1 / 2)) = None"
    by code_simp
  then obtain m' where "process_batch difference_net example_data ''target'' (1 / 2) = (m', None)"
    by (cases "process_batch difference_net example_data ''target'' (1 / 2)") simp
  then show ?thesis
    by (simp add: train_def example_one_batch)
qed

text \<open>
  The theorem on the layer sizes \<open>[2, 2, 1]\<close> with the loss derivative \<open>a - t\<close> and
  targets of one entry: the network built, a backward pass, one mini-batch update, and
  a training run of one epoch with one batch.
\<close>

theorem shapes_invariant_witness:
  "2 \<le> length [2, 2, 1::int] \<and>
   MLP [2, 2, 1] relu difference_loss relu_derv linear linear_derv scalar_target
     ones_weight_init zeros_bias_init = Inr difference_net \<and>
   length (weights difference_net) = 2 \<and> length (biases difference_net) = 2 \<and>
   shape (weights difference_net ! 0) = (2, 2) \<and> shape (biases difference_net ! 0) = (2, 1) \<and>
   shape (weights difference_net ! 1) = (1, 2) \<and> shape (biases difference_net ! 1) = (1, 1) \<and>
   wf_net [2, 2, 1] difference_net \<and>
   elementwise_functions difference_net \<and> targets_fit difference_net 1 \<and>
   snd (backward_method [1, 2] (scalar_target 1) difference_net) = difference_net \<and>
   length (weights (snd (process_batch_method example_data ''target'' (1 / 2) difference_net))) = 2 \<and>
   wf_net [2, 2, 1] (snd (process_batch_method example_data ''target'' (1 / 2) difference_net)) \<and>
   train first_rows 0 difference_net example_data 1 3 (1 / 2) ''target'' =
     Some ((fst (process_batch difference_net example_data ''target'' (1 / 2)), 1, [1]), None) \<and>
   wf_net [2, 2, 1] (fst (process_batch difference_net example_data ''target'' (1 / 2)))"
proof -
  have h1: "2 \<le> length [2, 2, 1::int]" by simp
  have h2: "\<forall>n \<in> set [2, 2, 1::int]. 0 < n" by simp
  have h3: "\<forall>nout nin. 0 < nout \<and> 0 < nin \<longrightarrow>
           (\<exists>W. ones_weight_init nout nin = Inr W \<and> shape W = (nat nout, nat nin))"
    by (simp add: ones_weight_init_def)
  have h4: "\<forall>n. 0 < n \<longrightarrow> (\<exists>B. zeros_bias_init n = Inr B \<and> shape B = (nat n, 1))"
    by (simp add: zeros_bias_init_def)
  note T = shapes_invariant[OF h1 h2 h3 h4, of relu difference_loss relu_derv linear linear_derv
      scalar_target, where 'g = nat]
  have ls: "map nat [2, 2, 1] = [2, 2, 1]" "nat (last [2, 2, 1]) = 1" by simp_all
  from T[THEN conjunct2, THEN conjunct1, rule_format, OF difference_net_built]
  have c: "length (weights difference_net) = length [2, 2, 1::int] - 1"
    "length (biases difference_net) = length [2, 2, 1::int] - 1"
    "\<forall>i. i + 1 < length [2, 2, 1::int] \<longrightarrow>
               shape (weights difference_net ! i) = (nat ([2, 2, 1] ! (i + 1)), nat ([2, 2, 1] ! i)) \<and>
               shape (biases difference_net ! i) = (nat ([2, 2, 1] ! (i + 1)), 1)"
    "wf_net [2, 2, 1] difference_net"
    unfolding ls by simp_all
  from c(1,2) have n: "length (weights difference_net) = 2" "length (biases difference_net) = 2"
    by simp_all
  from c(3)[rule_format, of 0] c(3)[rule_format, of 1]
  have s: "shape (weights difference_net ! 0) = (2, 2)" "shape (biases difference_net ! 0) = (2, 1)"
    "shape (weights difference_net ! 1) = (1, 2)" "shape (biases difference_net ! 1) = (1, 1)"
    by simp_all
  note I = T[THEN conjunct2, THEN conjunct2, rule_format, unfolded ls, OF c(4)]
  note bw = I[THEN conjunct2, THEN conjunct2, THEN conjunct1, rule_format,
      of "[1, 2]" "scalar_target 1"]
  from I[THEN conjunct2, THEN conjunct2, THEN conjunct2, THEN conjunct1, rule_format,
      of example_data "''target''" "1 / 2"]
  have cnt: "length (weights (snd (process_batch_method example_data ''target'' (1 / 2) difference_net))) = 2"
    by simp
  have fn: "elementwise_functions difference_net \<and> targets_fit difference_net 1"
    using difference_net_functions by simp
  note J = I[THEN conjunct2, THEN conjunct2, THEN conjunct2, THEN conjunct2, THEN conjunct2,
      rule_format, OF fn]
  from J[THEN conjunct1, rule_format, of example_data "''target''" "1 / 2"]
  have p: "wf_net [2, 2, 1] (snd (process_batch_method example_data ''target'' (1 / 2) difference_net))"
    by simp
  from J[THEN conjunct2, rule_format, OF difference_net_train]
  have t: "wf_net [2, 2, 1] (fst (process_batch difference_net example_data ''target'' (1 / 2)))"
    by simp
  show ?thesis
    by (intro conjI h1 difference_net_built n s c(4) difference_net_functions bw cnt p
        difference_net_train t)
qed

text \<open>
  C7 as stated fails: an update can change the shapes. The network \<open>mismatched_net\<close>
  has the counts and shapes of the layer sizes \<open>[2, 1]\<close> and functions that work cell
  by cell; its loss derivative is numpy's \<open>a - t\<close> and its targets have three entries.
  The subtraction broadcasts the one output against the three entries, and one call of
  \<open>process_batch\<close> on the three rows of the example data returns without an exception
  and leaves a weight of shape \<open>(3, 2)\<close> and a bias of shape \<open>(3, 1)\<close>.
\<close>

theorem shapes_invariant_counterexample:
  "wf_net [2, 1] mismatched_net \<and> elementwise_functions mismatched_net \<and>
   fst (process_batch_method example_data ''target'' (1 / 2) mismatched_net) = Inr () \<and>
   map shape (weights (snd (process_batch_method example_data ''target'' (1 / 2) mismatched_net)))
     = [(3, 2)] \<and>
   map shape (biases (snd (process_batch_method example_data ''target'' (1 / 2) mismatched_net)))
     = [(3, 1)] \<and>
   \<not> wf_net [2, 1] (snd (process_batch_method example_data ''target'' (1 / 2) mismatched_net))"
proof -
  have wf: "wf_net [2, 1] mismatched_net"
    by (simp add: wf_net_def mismatched_net_def shape_def)
  have ew: "elementwise_functions mismatched_net"
    by (simp add: elementwise_functions_def mismatched_net_def shape_pres_def relu_def
        relu_derv_def linear_def linear_derv_def shape_def)
  have r: "snd (process_batch mismatched_net example_data ''target'' (1 / 2)) = None"
    by code_simp
  have w: "map shape (weights (fst (process_batch mismatched_net example_data ''target'' (1 / 2))))
             = [(3, 2)]"
    by code_simp
  have b: "map shape (biases (fst (process_batch mismatched_net example_data ''target'' (1 / 2))))
             = [(3, 1)]"
    by code_simp
  have z: "shape (weights (fst (process_batch mismatched_net example_data ''target'' (1 / 2))) ! 0)
             = (3, 2)"
    by code_simp
  have n: "\<not> wf_net [2, 1] (fst (process_batch mismatched_net example_data ''target'' (1 / 2)))"
  proof
    assume "wf_net [2, 1] (fst (process_batch mismatched_net example_data ''target'' (1 / 2)))"
    then have "shape (weights (fst (process_batch mismatched_net example_data ''target'' (1 / 2))) ! 0)
                 = ([2, 1] ! (0 + 1), [2, 1] ! 0)"
      unfolding wf_net_def by simp
    with z show False by simp
  qed
  have f: "fst (process_batch_method example_data ''target'' (1 / 2) mismatched_net) = Inr ()"
    by (simp add: process_batch_method_result r)
  have s: "snd (process_batch_method example_data ''target'' (1 / 2) mismatched_net) =
           fst (process_batch mismatched_net example_data ''target'' (1 / 2))"
    by (simp add: process_batch_method_result)
  show ?thesis unfolding s by (intro conjI wf ew f[unfolded s] w b n)
qed

section \<open>What a call leaves of the parameters\<close>

lemma process_batch_frame:
  "\<exists>ws bs. fst (process_batch m batch c lr) = m\<lparr>weights := ws, biases := bs\<rparr>"
proof -
  have id: "m = m\<lparr>weights := weights m, biases := biases m\<rparr>" by simp
  have w: "\<And>ws. m\<lparr>weights := ws\<rparr> = m\<lparr>weights := ws, biases := biases m\<rparr>" by simp
  show ?thesis
    unfolding process_batch_def Let_def
    by (auto split: sum.splits prod.splits intro: exI[of _ "weights m"] id w)
qed


lemma process_batches_append:
  "process_batches m (xs @ ys) c lr =
     (case process_batches m xs c lr of
        (m', Some e) \<Rightarrow> (m', Some e)
      | (m', None) \<Rightarrow> process_batches m' ys c lr)"
proof (induction xs arbitrary: m)
  case Nil
  show ?case by simp
next
  case (Cons x xs)
  obtain m1 r where p: "process_batch m x c lr = (m1, r)" by (cases "process_batch m x c lr")
  show ?case by (cases r) (simp_all add: p Cons.IH)
qed

lemma process_batches_frame:
  "\<exists>ws bs. fst (process_batches m batches c lr) = m\<lparr>weights := ws, biases := bs\<rparr>"
proof (induction batches arbitrary: m)
  case Nil
  have "m = m\<lparr>weights := weights m, biases := biases m\<rparr>" by simp
  then show ?case by (metis fst_conv process_batches.simps(1))
next
  case (Cons x xs)
  obtain m1 r where p: "process_batch m x c lr = (m1, r)" by (cases "process_batch m x c lr")
  from process_batch_frame[of m x c lr] p obtain ws bs where
    m1: "m1 = m\<lparr>weights := ws, biases := bs\<rparr>" by auto
  show ?case
  proof (cases r)
    case None
    from Cons.IH[of m1] obtain ws' bs' where
      "fst (process_batches m1 xs c lr) = m1\<lparr>weights := ws', biases := bs'\<rparr>" by blast
    then have "fst (process_batches m1 xs c lr) = m\<lparr>weights := ws', biases := bs'\<rparr>"
      by (simp add: m1)
    with None p show ?thesis by auto
  next
    case (Some e)
    with p m1 show ?thesis by auto
  qed
qed

lemma train_loop_updates:
  "train_loop smp training_data mbs lr c epochs (m, g, out) = Some (st, err) \<Longrightarrow>
   \<exists>batches. fst st = fst (process_batches m batches c lr)"
proof (induction epochs arbitrary: m g out)
  case Nil
  then have "fst st = fst (process_batches m [] c lr)" by auto
  then show ?case by blast
next
  case (Cons epoch epochs)
  show ?case
  proof (cases "initialize_mini_batches smp g training_data mbs")
    case None
    with Cons.prems show ?thesis by simp
  next
    case (Some r)
    show ?thesis
    proof (cases r)
      case (Inl e)
      with Some Cons.prems have "fst st = fst (process_batches m [] c lr)" by auto
      then show ?thesis by blast
    next
      case (Inr bg)
      obtain bs g' where bg: "bg = (bs, g')" by (cases bg)
      obtain m1 r1 where p: "process_batches m bs c lr = (m1, r1)"
        by (cases "process_batches m bs c lr")
      show ?thesis
      proof (cases r1)
        case None
        with Some Inr bg p Cons.prems
        have "train_loop smp training_data mbs lr c epochs (m1, g', out @ [epoch + 1]) = Some (st, err)"
          by simp
        from Cons.IH[OF this] obtain bs' where "fst st = fst (process_batches m1 bs' c lr)" by blast
        with p None have "fst st = fst (process_batches m (bs @ bs') c lr)"
          by (simp add: process_batches_append)
        then show ?thesis by blast
      next
        case Some2: (Some e)
        with Some Inr bg p Cons.prems have "fst st = fst (process_batches m bs c lr)" by auto
        then show ?thesis by blast
      qed
    qed
  qed
qed

text \<open>
  C8. For every network \<open>m\<close> and all arguments: \<open>feed_forward\<close>,
  \<open>get_activations_and_zs\<close>, \<open>backward\<close> and \<open>predict\<close>, run as written in the
  class, leave the object exactly as it was, whether they return or raise, and what
  they return or raise is what the functions of the network compute; \<open>process_batch\<close>
  leaves an object that differs from the one before at most in \<open>weights\<close> and
  \<open>biases\<close>; and a run of \<open>train\<close> that ends leaves the object that some sequence
  of \<open>process_batch\<close> calls leaves, so it too differs at most in \<open>weights\<close> and
  \<open>biases\<close>.
\<close>

theorem parameter_store_frame:
  "feed_forward_method a m = (feed_forward m a, m) \<and>
   get_activations_and_zs_method a m = (get_activations_and_zs m a, m) \<and>
   backward_method a targets m = (backward m a targets, m) \<and>
   predict_method X m = (predict m X, m) \<and>
   (\<exists>ws bs. snd (process_batch_method batch class_column learning_rate m) =
              m\<lparr>weights := ws, biases := bs\<rparr>) \<and>
   (train smp g m training_data epochs mini_batch_size learning_rate class_column = Some (st, err) \<longrightarrow>
      (\<exists>batches. fst st = snd (process_batches_method batches class_column learning_rate m)) \<and>
      (\<exists>ws bs. fst st = m\<lparr>weights := ws, biases := bs\<rparr>))"
proof -
  have P: "\<exists>ws bs. snd (process_batch_method batch class_column learning_rate m) =
              m\<lparr>weights := ws, biases := bs\<rparr>"
    using process_batch_frame[of m batch class_column learning_rate]
    by (simp add: process_batch_method_result)
  have T: "train smp g m training_data epochs mini_batch_size learning_rate class_column = Some (st, err) \<longrightarrow>
      (\<exists>batches. fst st = snd (process_batches_method batches class_column learning_rate m)) \<and>
      (\<exists>ws bs. fst st = m\<lparr>weights := ws, biases := bs\<rparr>)"
  proof
    assume "train smp g m training_data epochs mini_batch_size learning_rate class_column = Some (st, err)"
    then have "train_loop smp training_data mini_batch_size learning_rate class_column
                 [0..<nat epochs] (m, g, []) = Some (st, err)"
      by (simp add: train_def)
    from train_loop_updates[OF this] obtain batches where
      b: "fst st = fst (process_batches m batches class_column learning_rate)" by blast
    from process_batches_frame[of m batches class_column learning_rate] obtain ws bs where
      "fst (process_batches m batches class_column learning_rate) = m\<lparr>weights := ws, biases := bs\<rparr>"
      by blast
    with b have fr: "fst st = m\<lparr>weights := ws, biases := bs\<rparr>" by (simp only:)
    from b have 1: "\<exists>batches. fst st = snd (process_batches_method batches class_column learning_rate m)"
      by (auto simp: process_batches_method_result)
    from fr have 2: "\<exists>ws bs. fst st = m\<lparr>weights := ws, biases := bs\<rparr>" by blast
    from 1 2 show "(\<exists>batches. fst st = snd (process_batches_method batches class_column learning_rate m)) \<and>
      (\<exists>ws bs. fst st = m\<lparr>weights := ws, biases := bs\<rparr>)" by (rule conjI)
  qed
  show ?thesis
    by (intro conjI feed_forward_method_reads get_activations_and_zs_method_reads
        backward_method_reads predict_method_reads P T)
qed

text \<open>
  The theorem on the example network: a backward pass, and a training run of one epoch
  with one batch, which does change the weights.
\<close>

theorem parameter_store_frame_witness:
  "train first_rows 0 example_net example_data 1 3 (1 / 2) ''target'' =
     Some ((fst (process_batch example_net example_data ''target'' (1 / 2)), 1, [1]), None) \<and>
   backward_method [1, 2] (scalar_target 1) example_net =
     (backward example_net [1, 2] (scalar_target 1), example_net) \<and>
   (\<exists>batches. fst (process_batch example_net example_data ''target'' (1 / 2)) =
      snd (process_batches_method batches ''target'' (1 / 2) example_net)) \<and>
   (\<exists>ws bs. fst (process_batch example_net example_data ''target'' (1 / 2)) =
      example_net\<lparr>weights := ws, biases := bs\<rparr>) \<and>
   weights (fst (process_batch example_net example_data ''target'' (1 / 2))) \<noteq> weights example_net"
proof -
  note T = parameter_store_frame[of "[1, 2]" example_net "scalar_target 1" example_data example_data
      "''target''" "1 / 2" first_rows 0 example_data 1 3
      "(fst (process_batch example_net example_data ''target'' (1 / 2)), 1, [1])" None]
  note R = T[THEN conjunct2, THEN conjunct2, THEN conjunct1]
  note U = T[THEN conjunct2, THEN conjunct2, THEN conjunct2, THEN conjunct2, THEN conjunct2,
      rule_format, OF example_train]
  have ch: "weights (fst (process_batch example_net example_data ''target'' (1 / 2))) \<noteq>
            weights example_net"
    using example_process_batch by (simp add: example_net_def)
  from U have 1: "\<exists>batches. fst (process_batch example_net example_data ''target'' (1 / 2)) =
      snd (process_batches_method batches ''target'' (1 / 2) example_net)" by simp
  from U have 2: "\<exists>ws bs. fst (process_batch example_net example_data ''target'' (1 / 2)) =
      example_net\<lparr>weights := ws, biases := bs\<rparr>" by simp
  show ?thesis by (intro conjI example_train R 1 2 ch)
qed

end
